theory Spec2Isabelle
  imports Complex_Main "HOL-Library.Word" "HOL-Library.Sublist"
begin

section \<open>JavaScript strings\<close>

text \<open>
  A JavaScript string is a sequence of 16-bit code units; \<open>length\<close> counts code units,
  as \<^verbatim>\<open>body.length\<close> does. A Node \<^verbatim>\<open>Buffer\<close> is a sequence of bytes. String
  constants of the source are ASCII and are written through \<open>ascii\<close>.
\<close>

type_synonym jschar = "16 word"
type_synonym jsstring = "jschar list"
type_synonym buffer = "8 word list"

definition code_unit :: "char \<Rightarrow> jschar" where
  "code_unit c = of_nat (of_char c)"

definition ascii :: "string \<Rightarrow> jsstring" where
  "ascii s = map code_unit s"

text \<open>
  \<^verbatim>\<open>String.prototype.trim\<close> strips the code points of the ECMAScript productions
  WhiteSpace (TAB, VT, FF, SP, NBSP, ZWNBSP and the Unicode category Zs) and
  LineTerminator (LF, CR, LS, PS) from both ends.
\<close>

definition is_whitespace :: "jschar \<Rightarrow> bool" where
  "is_whitespace c \<longleftrightarrow>
     c \<in> {0x0009, 0x000B, 0x000C, 0x0020, 0x00A0, 0xFEFF,
          0x1680, 0x2000, 0x2001, 0x2002, 0x2003, 0x2004, 0x2005, 0x2006,
          0x2007, 0x2008, 0x2009, 0x200A, 0x202F, 0x205F, 0x3000,
          0x000A, 0x000D, 0x2028, 0x2029}"

definition trim :: "jsstring \<Rightarrow> jsstring" where
  "trim s = rev (dropWhile is_whitespace (rev (dropWhile is_whitespace s)))"

text \<open>
  \<^verbatim>\<open>S.split(R)\<close> for a string separator and no limit: with \<open>R\<close> empty the code units
  of \<open>S\<close>; otherwise the pieces of \<open>S\<close> between the successive left-most matches of
  \<open>R\<close>, each search starting right after the previous match.
  \<open>indexOf s sep\<close> is the position of the first match of \<open>sep\<close> in \<open>s\<close>.
\<close>

fun indexOf :: "'a list \<Rightarrow> 'a list \<Rightarrow> nat option" where
  "indexOf [] sep = (if sep = [] then Some 0 else None)"
| "indexOf (c # cs) sep =
     (if prefix sep (c # cs) then Some 0 else map_option Suc (indexOf cs sep))"

function split :: "'a list \<Rightarrow> 'a list \<Rightarrow> 'a list list" where
  "split s sep =
     (if sep = [] then map (\<lambda>c. [c]) s
      else case indexOf s sep of
             None \<Rightarrow> [s]
           | Some j \<Rightarrow> take j s # split (drop (j + length sep) s) sep)"
  by pat_completeness auto
termination
proof (relation "measure (\<lambda>(s, sep). length s)")
  show "wf (measure (\<lambda>(s, sep). length s))" by simp
next
  fix s sep :: "'a list" and j
  assume "sep \<noteq> []" and "indexOf s sep = Some j"
  then have "s \<noteq> []" by (cases s) auto
  with \<open>sep \<noteq> []\<close> show "((drop (j + length sep) s, sep), (s, sep)) \<in> measure (\<lambda>(s, sep). length s)"
    by simp
qed

declare split.simps [simp del]

section \<open>The printer driver as a recorder of directives\<close>

text \<open>
  \<^verbatim>\<open>escpos.Printer\<close> is external. Each of its chained methods is one directive; the
  printer object is modelled by the sequence of directives it has received so far.
\<close>

datatype align = LT | CT | RT
datatype style = B | NORMAL

datatype image = Image buffer

datatype directive =
    Raw buffer
  | Text jsstring
  | Align align
  | Raster image
  | Style style
  | Feed nat
  | Cut
  | Close

type_synonym printer = "directive list"

definition raw :: "buffer \<Rightarrow> printer \<Rightarrow> printer" where
  "raw b p = p @ [Raw b]"

definition text_js :: "jsstring \<Rightarrow> printer \<Rightarrow> printer" where
  "text_js t p = p @ [Text t]"

definition align :: "align \<Rightarrow> printer \<Rightarrow> printer" where
  "align a p = p @ [Align a]"

definition raster :: "image \<Rightarrow> printer \<Rightarrow> printer" where
  "raster i p = p @ [Raster i]"

definition style :: "style \<Rightarrow> printer \<Rightarrow> printer" where
  "style s p = p @ [Style s]"

definition feed :: "nat \<Rightarrow> printer \<Rightarrow> printer" where
  "feed n p = p @ [Feed n]"

definition cut :: "printer \<Rightarrow> printer" where
  "cut p = p @ [Cut]"

definition close :: "printer \<Rightarrow> printer" where
  "close p = p @ [Close]"

section \<open>Constants of printer.js\<close>

definition PRINTER_WIDTH_PX :: nat where
  "PRINTER_WIDTH_PX = 576"

text \<open>\<^verbatim>\<open>Math.round(x)\<close> is \<open>\<lfloor>x + 1/2\<rfloor>\<close>; the product 576 * 0.8 is 460.8 up to a
  double-precision error far below the distance to 460.5.\<close>

definition Math_round :: "real \<Rightarrow> int" where
  "Math_round x = \<lfloor>x + 1 / 2\<rfloor>"

definition FOOTER_IMAGE_WIDTH_PX :: nat where
  "FOOTER_IMAGE_WIDTH_PX = nat (Math_round (real PRINTER_WIDTH_PX * 0.8))"

definition SOCKET_TIMEOUT :: nat where
  "SOCKET_TIMEOUT = 10000"

definition DIVIDER_MARKER :: jsstring where
  "DIVIDER_MARKER = ascii ''{{divider}}''"

definition BRANDED_FOOTER :: jsstring where
  "BRANDED_FOOTER = ascii
     ''- - -\<newline>\<newline>Unusual Coffee\<newline>Visit us at unusual.coffee\<newline>\<newline>- - -\<newline>\<newline>Thank you!''"

definition NL2 :: jsstring where
  "NL2 = ascii ''\<newline>\<newline>''"

section \<open>Composition of the directive sequence\<close>

text \<open>\<^verbatim>\<open>Array.prototype.forEach\<close> with the index passed to the callback.\<close>

fun forEach_from :: "('a \<Rightarrow> nat \<Rightarrow> 's \<Rightarrow> 's) \<Rightarrow> 'a list \<Rightarrow> nat \<Rightarrow> 's \<Rightarrow> 's" where
  "forEach_from f [] i s = s"
| "forEach_from f (x # xs) i s = forEach_from f xs (Suc i) (f x i s)"

definition forEach :: "('a \<Rightarrow> nat \<Rightarrow> 's \<Rightarrow> 's) \<Rightarrow> 'a list \<Rightarrow> 's \<Rightarrow> 's" where
  "forEach f xs s = forEach_from f xs 0 s"

text \<open>The callback of \<^verbatim>\<open>bodySegments.forEach\<close> (printer.js, lines 180-190).\<close>

definition printSegment ::
  "jsstring list \<Rightarrow> image option \<Rightarrow> jsstring \<Rightarrow> nat \<Rightarrow> printer \<Rightarrow> printer" where
  "printSegment bodySegments dividerImage segment index printer =
     (let printer1 = (if trim segment \<noteq> [] then text_js segment (align LT printer)
                      else printer)
      in case dividerImage of
           Some d \<Rightarrow>
             if int index < int (length bodySegments) - 1
             then raster d (align CT printer1) else printer1
         | None \<Rightarrow> printer1)"

definition printBody :: "jsstring list \<Rightarrow> image option \<Rightarrow> printer \<Rightarrow> printer" where
  "printBody bodySegments dividerImage printer =
     forEach (printSegment bodySegments dividerImage) bodySegments printer"

text \<open>
  The values a field of a parsed JSON or multipart request can hold. \<open>truthy\<close> is
  JavaScript's ToBoolean (a number is falsy when it is 0 or NaN; only integers are
  kept here, since every use below treats all non-strings alike).
\<close>

datatype jsvalue =
    JUndefined
  | JNull
  | JBool bool
  | JNumber int
  | JString jsstring
  | JObject

fun truthy :: "jsvalue \<Rightarrow> bool" where
  "truthy JUndefined = False"
| "truthy JNull = False"
| "truthy (JBool b) = b"
| "truthy (JNumber n) = (n \<noteq> 0)"
| "truthy (JString s) = (s \<noteq> [])"
| "truthy JObject = True"

record images =
  headerImage :: image
  dividerImage :: "image option"
  footerImage :: "image option"
  bodyImage :: "image option"

text \<open>
  The order-details block (lines 209-216). \<^verbatim>\<open>orderDetails.trim()\<close> on a truthy value
  that is not a string throws a TypeError, which is the \<open>Inl\<close> branch.
\<close>

definition printOrderDetails :: "jsvalue \<Rightarrow> printer \<Rightarrow> jsstring + printer" where
  "printOrderDetails orderDetails printer =
     (if \<not> truthy orderDetails then Inr printer
      else case orderDetails of
             JString s \<Rightarrow>
               if trim s \<noteq> []
               then Inr (text_js NL2 (text_js (trim s) (align LT (text_js NL2 printer))))
               else Inr printer
           | _ \<Rightarrow> Inl (ascii ''orderDetails.trim is not a function''))"

text \<open>
  The body of the \<^verbatim>\<open>try\<close> block in the callback of \<^verbatim>\<open>device.open\<close> (lines 168-230):
  the directives sent to the printer, and the message of the exception thrown, if any.
\<close>

definition printJob ::
  "images \<Rightarrow> jsstring list \<Rightarrow> jsvalue \<Rightarrow> printer \<Rightarrow> printer \<times> jsstring option" where
  "printJob imgs bodySegments orderDetails printer0 =
     (let p1 = text_js NL2 (raster (headerImage imgs) (align CT
                 (text_js NL2 (raw [0x1b, 0x40] printer0))));
          p2 = text_js NL2 (printBody bodySegments (dividerImage imgs) p1);
          p3 = (case bodyImage imgs of
                  Some b \<Rightarrow> text_js NL2 (raster b (align CT p2))
                | None \<Rightarrow> p2);
          p4 = text_js NL2 (raw [0x1d, 0x28, 0x45, 0x02, 0x00, 0x31, 0x08]
                 (style NORMAL (text_js BRANDED_FOOTER (style B
                   (raw [0x1d, 0x28, 0x45, 0x02, 0x00, 0x31, 0x0f] (align CT p3))))))
      in case printOrderDetails orderDetails p4 of
           Inl msg \<Rightarrow> (p4, Some msg)
         | Inr p5 \<Rightarrow>
             (let p6 = (case footerImage imgs of
                          Some f \<Rightarrow> raster f (align CT p5)
                        | None \<Rightarrow> p5)
              in (close (cut (feed 3 p6)), None)))"

section \<open>Files, clock and external capabilities\<close>

text \<open>
  What \<^verbatim>\<open>printReceipt\<close> reads from outside: the three asset files beside the script
  (\<open>None\<close> when \<^verbatim>\<open>fs.existsSync\<close> is false), \<^verbatim>\<open>os.tmpdir()\<close>, the value of each
  successive call of \<^verbatim>\<open>Date.now()\<close>, the outcome of \<^verbatim>\<open>sharp\<close> on a buffer and a
  width (\<open>Inl\<close>: the promise rejects), the outcome of \<^verbatim>\<open>escpos.Image.load\<close> on
  the bytes of a file, the outcome of \<^verbatim>\<open>fs.writeFileSync\<close> on a path and a buffer,
  and whether \<^verbatim>\<open>fs.unlinkSync\<close> throws on a path. A write that throws has a message
  and either leaves the path as it was or leaves some bytes there.
\<close>

datatype load_result = LoadError jsstring | LoadInvalid | Loaded image

datatype residue = Untouched | Left buffer

datatype write_outcome = Written | WriteThrows jsstring residue

record env =
  logo_png :: "buffer option"
  divider_long_png :: "buffer option"
  footer_image_1_png :: "buffer option"
  tmpdir :: jsstring
  date_now :: "nat \<Rightarrow> nat"
  sharp :: "buffer \<Rightarrow> nat \<Rightarrow> jsstring + buffer"
  image_load :: "buffer \<Rightarrow> load_result"
  write_file :: "jsstring \<Rightarrow> buffer \<Rightarrow> write_outcome"
  unlink_throws :: "jsstring \<Rightarrow> bool"

text \<open>
  What \<^verbatim>\<open>printReceipt\<close> changes before the network phase: the files of the temp
  directory (by path), its local \<^verbatim>\<open>tempFiles\<close>, the number of clock readings taken,
  the calls made to the raster converter, and the warnings logged.
\<close>

record world =
  tmp :: "jsstring \<rightharpoonup> buffer"
  tempFiles :: "jsstring list"
  clock_reads :: nat
  sharp_calls :: "(buffer \<times> nat) list"
  warnings :: "jsstring list"

datatype error =
    HeaderLogoNotFound
  | SharpRejected jsstring
  | FailedToLoadImage jsstring
  | WriteFailed jsstring
  | PrinterConnectionTimeout
  | FailedToConnect jsstring
  | PrintFailed jsstring

text \<open>The decimal digits of a number, as a template literal renders \<^verbatim>\<open>Date.now()\<close>.\<close>

fun decimal :: "nat \<Rightarrow> jsstring" where
  "decimal n =
     (if n < 10 then [of_nat (48 + n)]
      else decimal (n div 10) @ [of_nat (48 + n mod 10)])"

declare decimal.simps [simp del]

text \<open>
  \<^verbatim>\<open>path.join\<close> of two strings, in its POSIX flavour: the non-empty arguments are
  joined by a slash and the result is normalised. Normalising goes through the segments
  between slashes: empty segments and \<^verbatim>\<open>.\<close> are dropped, \<^verbatim>\<open>..\<close> removes the segment
  before it (and is kept in a relative path when there is none to remove); a leading
  and a trailing slash are kept.
\<close>

definition normalize_step :: "bool \<Rightarrow> jsstring list \<Rightarrow> jsstring \<Rightarrow> jsstring list" where
  "normalize_step allowAboveRoot res seg =
     (if seg = [] \<or> seg = ascii ''.'' then res
      else if seg = ascii ''..''
      then (if res \<noteq> [] \<and> last res \<noteq> ascii ''..'' then butlast res
            else if allowAboveRoot then res @ [ascii ''..''] else res)
      else res @ [seg])"

fun join_segments :: "jsstring list \<Rightarrow> jsstring" where
  "join_segments [] = []"
| "join_segments [seg] = seg"
| "join_segments (seg # seg' # segs) = seg @ ascii ''/'' @ join_segments (seg' # segs)"

definition normalizeString :: "jsstring \<Rightarrow> bool \<Rightarrow> jsstring" where
  "normalizeString path allowAboveRoot =
     join_segments (foldl (normalize_step allowAboveRoot) [] (split path (ascii ''/'')))"

definition posix_normalize :: "jsstring \<Rightarrow> jsstring" where
  "posix_normalize path =
     (if path = [] then ascii ''.''
      else
        (let isAbsolute = (hd path = 0x2F);
             trailingSeparator = (last path = 0x2F);
             res = normalizeString path (\<not> isAbsolute)
         in if res = []
            then (if isAbsolute then ascii ''/''
                  else if trailingSeparator then ascii ''./'' else ascii ''.'')
            else (if isAbsolute then ascii ''/'' else [])
                 @ res @ (if trailingSeparator then ascii ''/'' else [])))"

definition path_join :: "jsstring \<Rightarrow> jsstring \<Rightarrow> jsstring" where
  "path_join dir name =
     (if dir = [] \<and> name = [] then ascii ''.''
      else posix_normalize (if dir = [] then name
                            else if name = [] then dir
                            else dir @ ascii ''/'' @ name))"

text \<open>\<^verbatim>\<open>processImage\<close> (lines 41-53): one call of the raster converter, recorded.\<close>

definition processImage :: "env \<Rightarrow> buffer \<Rightarrow> nat \<Rightarrow> world \<Rightarrow> (jsstring + buffer) \<times> world" where
  "processImage e buf width w =
     (sharp e buf width, w\<lparr>sharp_calls := sharp_calls w @ [(buf, width)]\<rparr>)"

text \<open>
  \<^verbatim>\<open>loadEscposImage\<close> (lines 58-70) reads the file at the path; the promise rejects
  when the loader hands back an error or something that is not an image. (A missing file
  is an error of the loader; printReceipt only loads files it has just written.)
\<close>

definition loadEscposImage :: "env \<Rightarrow> jsstring \<Rightarrow> world \<Rightarrow> error + image" where
  "loadEscposImage e filePath w =
     (case tmp w filePath of
        None \<Rightarrow> Inl (FailedToLoadImage (ascii ''ENOENT''))
      | Some bytes \<Rightarrow>
          (case image_load e bytes of
             LoadError msg \<Rightarrow> Inl (FailedToLoadImage msg)
           | LoadInvalid \<Rightarrow> Inl (FailedToLoadImage (ascii ''invalid image data''))
           | Loaded img \<Rightarrow> Inr img))"

text \<open>
  The block the source repeats for each role (lines 90-97, 103-113, 120-130, 136-146):
  convert, name a temp file after the clock, write it, record it, load it. A write that
  throws ends the block before the path is recorded.
\<close>

definition rasterToTemp ::
  "env \<Rightarrow> string \<Rightarrow> buffer \<Rightarrow> nat \<Rightarrow> world \<Rightarrow> (error + image) \<times> world" where
  "rasterToTemp e role buf width w =
     (case processImage e buf width w of
        (Inl msg, w1) \<Rightarrow> (Inl (SharpRejected msg), w1)
      | (Inr processed, w1) \<Rightarrow>
          (let tempPath = path_join (tmpdir e)
                 (ascii ''receipt-'' @ ascii role @ ascii ''-''
                    @ decimal (date_now e (clock_reads w1)) @ ascii ''.png'');
               w2 = w1\<lparr>clock_reads := Suc (clock_reads w1)\<rparr>
           in case write_file e tempPath processed of
                WriteThrows msg Untouched \<Rightarrow> (Inl (WriteFailed msg), w2)
              | WriteThrows msg (Left bytes) \<Rightarrow>
                  (Inl (WriteFailed msg), w2\<lparr>tmp := (tmp w2)(tempPath \<mapsto> bytes)\<rparr>)
              | Written \<Rightarrow>
                  (let w3 = w2\<lparr>tmp := (tmp w2)(tempPath \<mapsto> processed)\<rparr>;
                       w4 = w3\<lparr>tempFiles := tempFiles w3 @ [tempPath]\<rparr>
                   in (loadEscposImage e tempPath w4, w4))))"

definition rasterOptional ::
  "env \<Rightarrow> string \<Rightarrow> buffer option \<Rightarrow> nat \<Rightarrow> world \<Rightarrow> (error + image option) \<times> world" where
  "rasterOptional e role source width w =
     (case source of
        None \<Rightarrow> (Inr None, w)
      | Some buf \<Rightarrow>
          (case rasterToTemp e role buf width w of
             (Inl err, w1) \<Rightarrow> (Inl err, w1)
           | (Inr img, w1) \<Rightarrow> (Inr (Some img), w1)))"

text \<open>Lines 83-147: header (required), then divider, footer and body image (optional).\<close>

definition resolveAssets :: "env \<Rightarrow> buffer option \<Rightarrow> world \<Rightarrow> (error + images) \<times> world" where
  "resolveAssets e bodyImageBuffer w =
     (case logo_png e of
        None \<Rightarrow> (Inl HeaderLogoNotFound, w)
      | Some headerBuffer \<Rightarrow>
     (case rasterToTemp e ''header'' headerBuffer PRINTER_WIDTH_PX w of
        (Inl err, w1) \<Rightarrow> (Inl err, w1)
      | (Inr headerImg, w1) \<Rightarrow>
     (case rasterOptional e ''divider'' (divider_long_png e) PRINTER_WIDTH_PX w1 of
        (Inl err, w2) \<Rightarrow> (Inl err, w2)
      | (Inr dividerImg, w2) \<Rightarrow>
     (case rasterOptional e ''footer'' (footer_image_1_png e) FOOTER_IMAGE_WIDTH_PX w2 of
        (Inl err, w3) \<Rightarrow> (Inl err, w3)
      | (Inr footerImg, w3) \<Rightarrow>
     (case rasterOptional e ''body-img'' bodyImageBuffer FOOTER_IMAGE_WIDTH_PX w3 of
        (Inl err, w4) \<Rightarrow> (Inl err, w4)
      | (Inr bodyImg, w4) \<Rightarrow>
          (Inr \<lparr>headerImage = headerImg, dividerImage = dividerImg,
                footerImage = footerImg, bodyImage = bodyImg\<rparr>, w4))))))"

section \<open>The network phase\<close>

text \<open>
  The promise of lines 155-237. After the executor has armed the timer and called
  \<^verbatim>\<open>device.open\<close>, the runtime delivers events: the timer fires, \<^verbatim>\<open>device.open\<close>
  calls back (with an error message or without), the printer's \<^verbatim>\<open>close\<close> calls back.
  A promise settles once; later calls of \<^verbatim>\<open>resolve\<close> and \<^verbatim>\<open>reject\<close> are ignored.
  Of the delay of the timer only its expiry is kept, as the event \<open>TimerFired\<close>.
  \<open>sent\<close> collects the directives given to the printer objects created on this
  device, and \<open>device_close_called\<close> records a call of \<^verbatim>\<open>device.close()\<close>.
\<close>

datatype event = TimerFired | OpenCallback "jsstring option" | CloseCallback

record conn =
  settled :: "(error + unit) option"
  timer_armed :: bool
  sent :: printer
  device_close_called :: bool

definition settle :: "error + unit \<Rightarrow> conn \<Rightarrow> conn" where
  "settle r c = (if settled c = None then c\<lparr>settled := Some r\<rparr> else c)"

definition clearTimeout :: "conn \<Rightarrow> conn" where
  "clearTimeout c = c\<lparr>timer_armed := False\<rparr>"

definition conn0 :: conn where
  "conn0 = \<lparr>settled = None, timer_armed = True, sent = [], device_close_called = False\<rparr>"

fun on_event :: "images \<Rightarrow> jsstring list \<Rightarrow> jsvalue \<Rightarrow> event \<Rightarrow> conn \<Rightarrow> conn" where
  "on_event imgs bodySegments orderDetails TimerFired c =
     (if timer_armed c
      then settle (Inl PrinterConnectionTimeout) (c\<lparr>timer_armed := False\<rparr>)
      else c)"
| "on_event imgs bodySegments orderDetails (OpenCallback (Some msg)) c =
     settle (Inl (FailedToConnect msg)) (clearTimeout c)"
| "on_event imgs bodySegments orderDetails (OpenCallback None) c =
     (case printJob imgs bodySegments orderDetails [] of
        (p, None) \<Rightarrow> c\<lparr>sent := sent c @ p\<rparr>
      | (p, Some msg) \<Rightarrow>
          settle (Inl (PrintFailed msg))
            ((clearTimeout (c\<lparr>sent := sent c @ p\<rparr>))\<lparr>device_close_called := True\<rparr>))"
| "on_event imgs bodySegments orderDetails CloseCallback c =
     (if Close \<in> set (sent c) then settle (Inr ()) (clearTimeout c) else c)"

definition deliver :: "images \<Rightarrow> jsstring list \<Rightarrow> jsvalue \<Rightarrow> event list \<Rightarrow> conn \<Rightarrow> conn" where
  "deliver imgs bodySegments orderDetails evs c =
     fold (on_event imgs bodySegments orderDetails) evs c"

section \<open>printReceipt\<close>

text \<open>The \<^verbatim>\<open>finally\<close> block (lines 238-249).\<close>

fun cleanup :: "env \<Rightarrow> jsstring list \<Rightarrow> world \<Rightarrow> world" where
  "cleanup e [] w = w"
| "cleanup e (tempPath # rest) w =
     cleanup e rest
       (if tmp w tempPath \<noteq> None
        then (if unlink_throws e tempPath
              then w\<lparr>warnings := warnings w @ [tempPath]\<rparr>
              else w\<lparr>tmp := (tmp w)(tempPath := None)\<rparr>)
        else w)"

record print_args =
  body :: jsstring
  bodyImageBuffer :: "buffer option"
  orderDetails :: jsvalue

text \<open>
  The outcome of one call: \<open>result\<close> is \<open>None\<close> while the promise is pending (the
  call has not returned and the \<^verbatim>\<open>finally\<close> block has not run), the world after the
  call, and the connection after all events, also those delivered after the return.
  When an asset fails, no device is created and no timer is armed.
\<close>

record outcome =
  result :: "(error + unit) option"
  world_after :: world
  conn_after :: conn

definition world0 :: "(jsstring \<rightharpoonup> buffer) \<Rightarrow> world" where
  "world0 files =
     \<lparr>tmp = files, tempFiles = [], clock_reads = 0, sharp_calls = [], warnings = []\<rparr>"

definition printReceipt ::
  "env \<Rightarrow> (jsstring \<rightharpoonup> buffer) \<Rightarrow> event list \<Rightarrow> print_args \<Rightarrow> outcome" where
  "printReceipt e files evs args =
     (case resolveAssets e (bodyImageBuffer args) (world0 files) of
        (Inl err, w) \<Rightarrow>
          \<lparr>result = Some (Inl err), world_after = cleanup e (tempFiles w) w,
           conn_after = conn0\<lparr>timer_armed := False\<rparr>\<rparr>
      | (Inr imgs, w) \<Rightarrow>
          (let bodySegments = split (body args) DIVIDER_MARKER;
               c = deliver imgs bodySegments (orderDetails args) evs conn0
           in case settled c of
                None \<Rightarrow> \<lparr>result = None, world_after = w, conn_after = c\<rparr>
              | Some r \<Rightarrow>
                  \<lparr>result = Some r, world_after = cleanup e (tempFiles w) w,
                   conn_after = c\<rparr>))"

section \<open>The request boundary: POST /print\<close>

text \<open>
  A request after parsing: the fields \<^verbatim>\<open>req.body.body\<close> and
  \<^verbatim>\<open>req.body.orderDetails\<close> (\<open>JUndefined\<close> when absent) and the uploaded file of the
  field \<^verbatim>\<open>bodyImage\<close>, if any.
\<close>

record upload =
  mimetype :: jsstring
  buffer :: buffer

record request =
  req_body :: jsvalue
  req_orderDetails :: jsvalue
  req_file :: "upload option"

record response =
  status :: nat
  ok :: bool
  error_text :: "jsstring option"

datatype middleware_error = MulterError jsstring jsstring | PlainError jsstring

text \<open>The multer configuration (lines 13-26): the file filter, then the size limit.\<close>

definition fileFilter :: "upload \<Rightarrow> jsstring + bool" where
  "fileFilter file =
     (if mimetype file \<in> set [ascii ''image/png'', ascii ''image/jpeg'', ascii ''image/jpg'']
      then Inr True
      else Inl (ascii ''Only PNG and JPG images are allowed''))"

definition fileSize_limit :: nat where
  "fileSize_limit = 1 * 1024 * 1024"

definition upload_single :: "request \<Rightarrow> middleware_error + request" where
  "upload_single req =
     (case req_file req of
        None \<Rightarrow> Inr req
      | Some file \<Rightarrow>
          (case fileFilter file of
             Inl msg \<Rightarrow> Inl (PlainError msg)
           | Inr _ \<Rightarrow>
               if length (buffer file) > fileSize_limit
               then Inl (MulterError (ascii ''LIMIT_FILE_SIZE'') (ascii ''File too large''))
               else Inr req))"

text \<open>The error-handling middleware (lines 69-80).\<close>

definition error_middleware :: "middleware_error \<Rightarrow> response" where
  "error_middleware err =
     (case err of
        MulterError code msg \<Rightarrow>
          if code = ascii ''LIMIT_FILE_SIZE''
          then \<lparr>status = 400, ok = False, error_text = Some (ascii ''Image exceeds 1MB limit'')\<rparr>
          else \<lparr>status = 400, ok = False, error_text = Some msg\<rparr>
      | PlainError msg \<Rightarrow> \<lparr>status = 400, ok = False, error_text = Some msg\<rparr>)"

fun typeof :: "jsvalue \<Rightarrow> string" where
  "typeof JUndefined = ''undefined''"
| "typeof JNull = ''object''"
| "typeof (JBool b) = ''boolean''"
| "typeof (JNumber n) = ''number''"
| "typeof (JString s) = ''string''"
| "typeof JObject = ''object''"

fun message :: "error \<Rightarrow> jsstring" where
  "message HeaderLogoNotFound =
     ascii ''Header logo not found: logo.png must exist in project root''"
| "message (SharpRejected msg) = msg"
| "message (FailedToLoadImage msg) = ascii ''Failed to load image: '' @ msg"
| "message (WriteFailed msg) = msg"
| "message PrinterConnectionTimeout = ascii ''Printer connection timeout''"
| "message (FailedToConnect msg) = ascii ''Failed to connect to printer: '' @ msg"
| "message (PrintFailed msg) = ascii ''Print failed: '' @ msg"

text \<open>
  The route handler (lines 32-66). It answers with a response, or not yet while
  \<^verbatim>\<open>printReceipt\<close> is pending; the second component is the outcome of the call of
  \<^verbatim>\<open>printReceipt\<close>, \<open>None\<close> when it was not called.
\<close>

definition print_handler ::
  "env \<Rightarrow> (jsstring \<rightharpoonup> buffer) \<Rightarrow> event list \<Rightarrow> request
     \<Rightarrow> response option \<times> outcome option" where
  "print_handler e files evs req =
     (let required = \<lparr>status = 400, ok = False,
                       error_text = Some (ascii ''Body text is required'')\<rparr>
      in if \<not> truthy (req_body req) \<or> typeof (req_body req) \<noteq> ''string''
         then (Some required, None)
         else case req_body req of
           JString b \<Rightarrow>
             if length (trim b) = 0 then (Some required, None)
             else if length b > 4000
             then (Some \<lparr>status = 400, ok = False,
                         error_text = Some (ascii ''Body text exceeds 4000 characters'')\<rparr>, None)
             else
               (let bodyImageBuffer = map_option buffer (req_file req);
                    orderDetails = (if truthy (req_orderDetails req)
                                    then req_orderDetails req else JNull);
                    out = printReceipt e files evs
                            \<lparr>body = trim b, bodyImageBuffer = bodyImageBuffer,
                             orderDetails = orderDetails\<rparr>
                in case result out of
                     None \<Rightarrow> (None, Some out)
                   | Some (Inr _) \<Rightarrow>
                       (Some \<lparr>status = 200, ok = True, error_text = None\<rparr>, Some out)
                   | Some (Inl err) \<Rightarrow>
                       (Some \<lparr>status = 500, ok = False,
                              error_text = Some (if message err \<noteq> [] then message err
                                                 else ascii ''Print failed'')\<rparr>, Some out))
         | _ \<Rightarrow> (Some required, None))"

definition post_print ::
  "env \<Rightarrow> (jsstring \<rightharpoonup> buffer) \<Rightarrow> event list \<Rightarrow> request
     \<Rightarrow> response option \<times> outcome option" where
  "post_print e files evs req =
     (case upload_single req of
        Inl err \<Rightarrow> (Some (error_middleware err), None)
      | Inr req1 \<Rightarrow> print_handler e files evs req1)"

section \<open>Notions of the specification\<close>

text \<open>The number of positions of a text at which the separator matches.\<close>

fun occurrences :: "'a list \<Rightarrow> 'a list \<Rightarrow> nat" where
  "occurrences sep [] = 0"
| "occurrences sep (c # cs) = (if prefix sep (c # cs) then 1 else 0) + occurrences sep cs"

text \<open>A separator no proper suffix of which starts it again: its matches cannot overlap.\<close>

definition borderless :: "'a list \<Rightarrow> bool" where
  "borderless sep \<longleftrightarrow>
     sep \<noteq> [] \<and> list_all (\<lambda>i. \<not> prefix (drop i sep) sep) [1..<length sep]"

text \<open>Groups of directives with a separator group in every gap between two of them.\<close>

fun between :: "'a list list \<Rightarrow> 'a list \<Rightarrow> 'a list" where
  "between [] d = []"
| "between [g] d = g"
| "between (g # g' # gs) d = g @ d @ between (g' # gs) d"

text \<open>What one segment contributes: left-aligned text, or nothing when it is blank.\<close>

definition segment_text :: "jsstring \<Rightarrow> directive list" where
  "segment_text seg = (if trim seg \<noteq> [] then [Align LT, Text seg] else [])"

text \<open>The order details to print: the trimmed string when it is not blank.\<close>

fun details_text :: "jsvalue \<Rightarrow> jsstring option" where
  "details_text (JString s) = (if trim s \<noteq> [] then Some (trim s) else None)"
| "details_text _ = None"

text \<open>
  The fixed order of the specification (section 4.1, step 4): reset, blank feed, centered
  header raster, blank feed, the segments with the divider in their gaps, blank feed,
  the body image with its feed, the branded footer in bold at density 15 with density 8
  restored, then the order details, the footer raster, feed(3), cut, and the closing of
  the connection.
\<close>

definition layout_before_details :: "images \<Rightarrow> jsstring list \<Rightarrow> directive list" where
  "layout_before_details imgs segs =
     [Raw [0x1b, 0x40], Text NL2, Align CT, Raster (headerImage imgs), Text NL2]
     @ (case dividerImage imgs of
          Some d \<Rightarrow> between (map segment_text segs) [Align CT, Raster d]
        | None \<Rightarrow> concat (map segment_text segs))
     @ [Text NL2]
     @ (case bodyImage imgs of Some b \<Rightarrow> [Align CT, Raster b, Text NL2] | None \<Rightarrow> [])
     @ [Align CT, Raw [0x1d, 0x28, 0x45, 0x02, 0x00, 0x31, 0x0f], Style B,
        Text BRANDED_FOOTER, Style NORMAL,
        Raw [0x1d, 0x28, 0x45, 0x02, 0x00, 0x31, 0x08], Text NL2]"

definition layout_after_details :: "images \<Rightarrow> directive list" where
  "layout_after_details imgs =
     (case footerImage imgs of Some f \<Rightarrow> [Align CT, Raster f] | None \<Rightarrow> [])
     @ [Feed 3, Cut, Close]"

definition receipt_layout :: "images \<Rightarrow> jsstring list \<Rightarrow> jsstring option \<Rightarrow> directive list" where
  "receipt_layout imgs segs details =
     layout_before_details imgs segs
     @ (case details of Some t \<Rightarrow> [Text NL2, Align LT, Text t, Text NL2] | None \<Rightarrow> [])
     @ layout_after_details imgs"

text \<open>
  The same layout cut at the body: what precedes the segments, the segments with a
  divider after every segment except the last, what follows them up to the branded
  footer, and the closing part, which is missing when the order details make the print
  job throw.
\<close>

definition layout_header :: "images \<Rightarrow> directive list" where
  "layout_header imgs =
     [Raw [0x1b, 0x40], Text NL2, Align CT, Raster (headerImage imgs), Text NL2]"

definition segments_with_dividers :: "jsstring list \<Rightarrow> image option \<Rightarrow> directive list" where
  "segments_with_dividers segs dividerImg =
     concat (map (\<lambda>(i, seg).
                    segment_text seg
                    @ (case dividerImg of
                         Some d \<Rightarrow> if Suc i < length segs then [Align CT, Raster d] else []
                       | None \<Rightarrow> []))
               (enumerate 0 segs))"

definition layout_after_body :: "images \<Rightarrow> directive list" where
  "layout_after_body imgs =
     [Text NL2]
     @ (case bodyImage imgs of Some b \<Rightarrow> [Align CT, Raster b, Text NL2] | None \<Rightarrow> [])
     @ [Align CT, Raw [0x1d, 0x28, 0x45, 0x02, 0x00, 0x31, 0x0f], Style B,
        Text BRANDED_FOOTER, Style NORMAL,
        Raw [0x1d, 0x28, 0x45, 0x02, 0x00, 0x31, 0x08], Text NL2]"

definition layout_closing :: "images \<Rightarrow> jsvalue \<Rightarrow> directive list" where
  "layout_closing imgs details =
     (if truthy details \<and> typeof details \<noteq> ''string'' then []
      else (case details_text details of
              Some t \<Rightarrow> [Text NL2, Align LT, Text t, Text NL2]
            | None \<Rightarrow> [])
           @ layout_after_details imgs)"

text \<open>The conversions of a run in which every asset present is converted.\<close>

definition expected_sharp_calls :: "env \<Rightarrow> buffer option \<Rightarrow> (buffer \<times> nat) list" where
  "expected_sharp_calls e bodyBuffer =
     (case logo_png e of
        None \<Rightarrow> []
      | Some h \<Rightarrow>
          [(h, PRINTER_WIDTH_PX)]
          @ (case divider_long_png e of Some d \<Rightarrow> [(d, PRINTER_WIDTH_PX)] | None \<Rightarrow> [])
          @ (case footer_image_1_png e of Some f \<Rightarrow> [(f, FOOTER_IMAGE_WIDTH_PX)] | None \<Rightarrow> [])
          @ (case bodyBuffer of Some b \<Rightarrow> [(b, FOOTER_IMAGE_WIDTH_PX)] | None \<Rightarrow> []))"

section \<open>Example inputs\<close>

text \<open>
  A machine on which the three assets exist, the raster converter, the image loader and
  the writes succeed, and the clock reads 42, 43, ...; the same machine with an unlink
  that throws;
  and a request for the body \<^verbatim>\<open>Hello{{divider}}World\<close>.
\<close>

definition example_env :: env where
  "example_env =
     \<lparr>logo_png = Some [1], divider_long_png = Some [2], footer_image_1_png = Some [3],
      tmpdir = ascii ''/tmp'', date_now = (\<lambda>k. 42 + k),
      sharp = (\<lambda>buf width. Inr buf), image_load = (\<lambda>bytes. Loaded (Image bytes)),
      write_file = (\<lambda>p bytes. Written), unlink_throws = (\<lambda>p. False)\<rparr>"

definition readonly_env :: env where
  "readonly_env = example_env\<lparr>unlink_throws := (\<lambda>p. True)\<rparr>"

definition example_args :: print_args where
  "example_args =
     \<lparr>body = ascii ''Hello{{divider}}World'', bodyImageBuffer = None, orderDetails = JNull\<rparr>"

definition example_images :: images where
  "example_images =
     \<lparr>headerImage = Image [1], dividerImage = Some (Image [2]),
      footerImage = Some (Image [3]), bodyImage = None\<rparr>"

definition no_files :: "jsstring \<rightharpoonup> buffer" where
  "no_files = Map.empty"

section \<open>Auxiliary notions for the proofs\<close>

text \<open>
  What a role resolves to, as a function of the source bytes and the two external
  capabilities alone: the converted bytes, loaded.
\<close>

definition convert_and_load :: "env \<Rightarrow> buffer \<Rightarrow> nat \<Rightarrow> error + image" where
  "convert_and_load e buf width =
     (case sharp e buf width of
        Inl msg \<Rightarrow> Inl (SharpRejected msg)
      | Inr processed \<Rightarrow>
          (case image_load e processed of
             LoadError msg \<Rightarrow> Inl (FailedToLoadImage msg)
           | LoadInvalid \<Rightarrow> Inl (FailedToLoadImage (ascii ''invalid image data''))
           | Loaded img \<Rightarrow> Inr img))"

definition convert_optional :: "env \<Rightarrow> buffer option \<Rightarrow> nat \<Rightarrow> error + image option" where
  "convert_optional e source width =
     (case source of
        None \<Rightarrow> Inr None
      | Some buf \<Rightarrow>
          (case convert_and_load e buf width of
             Inl err \<Rightarrow> Inl err
           | Inr img \<Rightarrow> Inr (Some img)))"

definition resolved_images :: "env \<Rightarrow> buffer option \<Rightarrow> error + images" where
  "resolved_images e bodyBuffer =
     (case logo_png e of
        None \<Rightarrow> Inl HeaderLogoNotFound
      | Some headerBuffer \<Rightarrow>
     (case convert_and_load e headerBuffer PRINTER_WIDTH_PX of
        Inl err \<Rightarrow> Inl err
      | Inr headerImg \<Rightarrow>
     (case convert_optional e (divider_long_png e) PRINTER_WIDTH_PX of
        Inl err \<Rightarrow> Inl err
      | Inr dividerImg \<Rightarrow>
     (case convert_optional e (footer_image_1_png e) FOOTER_IMAGE_WIDTH_PX of
        Inl err \<Rightarrow> Inl err
      | Inr footerImg \<Rightarrow>
     (case convert_optional e bodyBuffer FOOTER_IMAGE_WIDTH_PX of
        Inl err \<Rightarrow> Inl err
      | Inr bodyImg \<Rightarrow>
          Inr \<lparr>headerImage = headerImg, dividerImage = dividerImg,
               footerImage = footerImg, bodyImage = bodyImg\<rparr>)))))"

text \<open>
  The temp directory differs from the files found at the start only at the recorded
  temp paths and at paths where a write can throw, every recorded temp path holds a
  file, and nothing has been logged.
\<close>

definition tracked :: "env \<Rightarrow> (jsstring \<rightharpoonup> buffer) \<Rightarrow> world \<Rightarrow> bool" where
  "tracked e files w \<longleftrightarrow>
     warnings w = [] \<and>
     (\<forall>p. if p \<in> set (tempFiles w) then tmp w p \<noteq> None
          else tmp w p = files p \<or> (\<exists>bytes. write_file e p bytes \<noteq> Written))"

text \<open>The error of a write that threw.\<close>

fun write_failed :: "error + 'a \<Rightarrow> bool" where
  "write_failed (Inl (WriteFailed msg)) = True"
| "write_failed _ = False"

section \<open>Splitting at the divider marker\<close>

lemmas printer_defs =
  raw_def text_js_def align_def raster_def style_def feed_def cut_def close_def

lemma marker_borderless: "borderless DIVIDER_MARKER"
  by (simp add: borderless_def DIVIDER_MARKER_def ascii_def code_unit_def upt_rec)

lemma indexOf_None_occurrences:
  "sep \<noteq> [] \<Longrightarrow> indexOf s sep = None \<Longrightarrow> occurrences sep s = 0"
  by (induction s) (auto split: if_splits)

lemma borderless_no_inner_match:
  assumes "borderless sep" "0 < i" "i < length sep"
  shows "\<not> prefix sep (drop i sep @ rest)"
proof
  assume p: "prefix sep (drop i sep @ rest)"
  from assms have nb: "\<not> prefix (drop i sep) sep"
    by (simp add: borderless_def list_all_iff)
  from p have "prefix sep (drop i sep) \<or> (\<exists>us. sep = drop i sep @ us \<and> prefix us rest)"
    by (simp add: prefix_append)
  then show False
  proof
    assume "prefix sep (drop i sep)"
    then have "length sep \<le> length (drop i sep)" by (rule prefix_length_le)
    with assms show False by simp
  next
    assume "\<exists>us. sep = drop i sep @ us \<and> prefix us rest"
    then obtain us where "sep = drop i sep @ us" by blast
    then have "prefix (drop i sep) sep" by (metis prefixI)
    with nb show False by simp
  qed
qed

lemma occurrences_skip_match:
  assumes "borderless sep" "0 < i" "i \<le> length sep"
  shows "occurrences sep (drop i sep @ rest) = occurrences sep rest"
  using assms
proof (induction "length sep - i" arbitrary: i)
  case 0
  then show ?case by simp
next
  case (Suc n)
  then have lt: "i < length sep" by simp
  then have d: "drop i sep = sep ! i # drop (Suc i) sep"
    by (simp add: Cons_nth_drop_Suc)
  have nm: "\<not> prefix sep (drop i sep @ rest)"
    using Suc.prems lt by (intro borderless_no_inner_match) auto
  have "occurrences sep (drop i sep @ rest) = occurrences sep (drop (Suc i) sep @ rest)"
    using nm by (simp add: d)
  also have "\<dots> = occurrences sep rest"
    using Suc by (intro Suc.hyps) auto
  finally show ?case .
qed

lemma indexOf_Some_occurrences:
  assumes "borderless sep"
  shows "indexOf s sep = Some j \<Longrightarrow>
         occurrences sep s = Suc (occurrences sep (drop (j + length sep) s))"
proof (induction s arbitrary: j)
  case Nil
  with assms show ?case by (simp add: borderless_def split: if_splits)
next
  case (Cons c cs)
  show ?case
  proof (cases "prefix sep (c # cs)")
    case True
    then obtain rest where r: "c # cs = sep @ rest" by (auto simp: prefix_def)
    from assms have ne: "sep \<noteq> []" by (simp add: borderless_def)
    then have cs: "cs = drop 1 sep @ rest" using r by (cases sep) auto
    from True Cons.prems have j: "j = 0" by simp
    have "occurrences sep cs = occurrences sep rest"
      unfolding cs using assms ne by (intro occurrences_skip_match) (auto simp: Suc_le_eq)
    moreover have "drop (length sep) (c # cs) = rest" using r by simp
    ultimately show ?thesis using True j by simp
  next
    case False
    with Cons.prems obtain j' where j': "indexOf cs sep = Some j'" "j = Suc j'"
      by auto
    from Cons.IH[OF j'(1)] False j'(2) show ?thesis by simp
  qed
qed

lemma length_split_occurrences:
  "borderless sep \<Longrightarrow> length (split s sep) = Suc (occurrences sep s)"
proof (induction s sep rule: split.induct)
  case (1 s sep)
  from "1.prems" have ne: "sep \<noteq> []" by (simp add: borderless_def)
  show ?case
  proof (cases "indexOf s sep")
    case None
    with ne show ?thesis
      by (simp add: split.simps[of s sep] indexOf_None_occurrences)
  next
    case (Some j)
    with ne "1.IH"[OF ne Some "1.prems"] show ?thesis
      by (simp add: split.simps[of s sep] indexOf_Some_occurrences[OF "1.prems" Some])
  qed
qed

lemma forEach_printSegment:
  "i + length xs = length segs \<Longrightarrow>
   forEach_from (printSegment segs (Some d)) xs i p
     = p @ between (map segment_text xs) [Align CT, Raster d]"
proof (induction xs arbitrary: i p)
  case Nil
  then show ?case by simp
next
  case (Cons x xs)
  show ?case
  proof (cases xs)
    case Nil
    with Cons.prems show ?thesis
      by (simp add: printSegment_def segment_text_def printer_defs)
  next
    case (Cons y ys)
    with Cons.prems have "Suc i + length xs = length segs" by simp
    from Cons.IH[OF this] Cons Cons.prems show ?thesis
      by (simp add: printSegment_def segment_text_def printer_defs)
  qed
qed

lemma printBody_between:
  "printBody segs (Some d) p = p @ between (map segment_text segs) [Align CT, Raster d]"
  by (simp add: printBody_def forEach_def forEach_printSegment)

lemma printBody_no_divider:
  "forEach_from (printSegment segs None) xs i p = p @ concat (map segment_text xs)"
  by (induction xs arbitrary: i p) (simp_all add: printSegment_def segment_text_def printer_defs)

lemma count_rasters_between:
  "length (filter (\<lambda>x. x = Raster d) (between (map segment_text segs) [Align CT, Raster d]))
     = length segs - 1"
  by (induction segs rule: induct_list012) (simp_all add: segment_text_def)

lemma split_example:
  "split (ascii ''Hello{{divider}}World'') DIVIDER_MARKER = [ascii ''Hello'', ascii ''World'']"
  by (simp add: split.simps DIVIDER_MARKER_def ascii_def code_unit_def)

section \<open>The directive sequence of a print job\<close>

lemma printBody_None:
  "printBody segs None p = p @ concat (map segment_text segs)"
  by (simp add: printBody_def forEach_def printBody_no_divider)

lemma trim_Nil: "trim [] = []"
  by (simp add: trim_def)

lemma printOrderDetails_details:
  "\<not> truthy od \<or> typeof od = ''string'' \<Longrightarrow>
   printOrderDetails od p
     = Inr (p @ (case details_text od of
                   Some t \<Rightarrow> [Text NL2, Align LT, Text t, Text NL2] | None \<Rightarrow> []))"
  by (cases od) (auto simp: printOrderDetails_def printer_defs trim_Nil)

lemma printJob_layout:
  assumes "\<not> truthy od \<or> typeof od = ''string''"
  shows "printJob imgs segs od [] = (receipt_layout imgs segs (details_text od), None)"
  using printOrderDetails_details[OF assms]
  by (simp add: printJob_def receipt_layout_def layout_before_details_def
      layout_after_details_def printBody_between printBody_None printer_defs Let_def
      split: option.splits)

lemma printJob_TypeError_sent:
  assumes "truthy od" "typeof od \<noteq> ''string''"
  shows "printJob imgs segs od []
           = (layout_before_details imgs segs, Some (ascii ''orderDetails.trim is not a function''))"
proof -
  from assms have "printOrderDetails od p = Inl (ascii ''orderDetails.trim is not a function'')" for p
    by (cases od) (simp_all add: printOrderDetails_def)
  then show ?thesis
    by (simp add: printJob_def layout_before_details_def printBody_between printBody_None
        printer_defs Let_def split: option.splits)
qed

lemma printReceipt_normal_run:
  assumes "resolveAssets e (bodyImageBuffer args) (world0 files) = (Inr imgs, w)"
      and "\<not> truthy (orderDetails args) \<or> typeof (orderDetails args) = ''string''"
  shows "result (printReceipt e files [OpenCallback None, CloseCallback] args) = Some (Inr ())"
    and "sent (conn_after (printReceipt e files [OpenCallback None, CloseCallback] args))
         = receipt_layout imgs (split (body args) DIVIDER_MARKER) (details_text (orderDetails args))"
  using assms(1) printJob_layout[OF assms(2), of imgs "split (body args) DIVIDER_MARKER"]
  by (simp_all add: printReceipt_def deliver_def conn0_def settle_def clearTimeout_def Let_def
        receipt_layout_def layout_after_details_def)

lemma printReceipt_TypeError_run:
  assumes "resolveAssets e (bodyImageBuffer args) (world0 files) = (Inr imgs, w)"
      and "truthy (orderDetails args)" "typeof (orderDetails args) \<noteq> ''string''"
  shows "result (printReceipt e files [OpenCallback None, CloseCallback] args)
           = Some (Inl (PrintFailed (ascii ''orderDetails.trim is not a function'')))"
    and "sent (conn_after (printReceipt e files [OpenCallback None, CloseCallback] args))
           = layout_before_details imgs (split (body args) DIVIDER_MARKER)"
    and "device_close_called (conn_after (printReceipt e files [OpenCallback None, CloseCallback] args))"
  using assms(1) printJob_TypeError_sent[OF assms(2,3), of imgs "split (body args) DIVIDER_MARKER"]
  by (simp_all add: printReceipt_def deliver_def conn0_def settle_def clearTimeout_def Let_def
        layout_before_details_def)

lemma printReceipt_sent_prefix:
  assumes "resolveAssets e (bodyImageBuffer args) (world0 files) = (Inr imgs, w)"
  shows "prefix (sent (conn_after (printReceipt e files [OpenCallback None, CloseCallback] args)))
           (receipt_layout imgs (split (body args) DIVIDER_MARKER)
              (details_text (orderDetails args)))"
proof (cases "\<not> truthy (orderDetails args) \<or> typeof (orderDetails args) = ''string''")
  case True
  from printReceipt_normal_run(2)[OF assms True] show ?thesis by simp
next
  case False
  then have "truthy (orderDetails args)" "typeof (orderDetails args) \<noteq> ''string''" by auto
  from printReceipt_TypeError_run(2)[OF assms this] show ?thesis
    by (simp add: receipt_layout_def)
qed

lemma subseq_example_layout:
  assumes "dividerImage imgs = Some d"
  shows "subseq [Raster (headerImage imgs), Text (ascii ''Hello''), Raster d,
                 Text (ascii ''World''), Text BRANDED_FOOTER, Cut]
           (receipt_layout imgs [ascii ''Hello'', ascii ''World''] details)"
proof -
  have grp: "segment_text (ascii ''Hello'') = [Align LT, Text (ascii ''Hello'')]"
    "segment_text (ascii ''World'') = [Align LT, Text (ascii ''World'')]"
    by (simp_all add: segment_text_def trim_def is_whitespace_def ascii_def code_unit_def)
  show ?thesis
    using assms
    by (simp add: receipt_layout_def layout_before_details_def layout_after_details_def grp
        split: option.splits)
qed

lemma forEach_printSegment_enumerate:
  "forEach_from (printSegment segs (Some d)) xs i p
     = p @ concat (map (\<lambda>(j, seg). segment_text seg
                          @ (if Suc j < length segs then [Align CT, Raster d] else []))
                     (enumerate i xs))"
  by (induction xs arbitrary: i p)
     (auto simp: printSegment_def segment_text_def printer_defs)

lemma Text_in_segment_text: "Text s \<in> set (segment_text seg) \<Longrightarrow> trim s \<noteq> []"
  by (auto simp: segment_text_def split: if_splits)

lemma set_between: "set (between gs d) \<subseteq> (\<Union>g\<in>set gs. set g) \<union> set d"
  by (induction gs d rule: between.induct) auto

lemma blank_not_printed:
  assumes "trim s = []"
  shows "Text s \<notin> set (printBody segs dv [])"
proof
  assume in_out: "Text s \<in> set (printBody segs dv [])"
  have "\<exists>seg. Text s \<in> set (segment_text seg)"
  proof (cases dv)
    case None
    with in_out show ?thesis by (auto simp: printBody_None)
  next
    case (Some d)
    with in_out have "Text s \<in> set (between (map segment_text segs) [Align CT, Raster d])"
      by (simp add: printBody_between)
    with set_between[of "map segment_text segs" "[Align CT, Raster d]"] show ?thesis
      by auto
  qed
  with assms show False by (auto dest: Text_in_segment_text)
qed

lemma dividers_of_between:
  "filter (\<lambda>x. x = Align CT \<or> x = Raster d) (between (map segment_text segs) [Align CT, Raster d])
     = concat (replicate (length segs - 1) [Align CT, Raster d])"
  by (induction segs rule: induct_list012) (simp_all add: segment_text_def)

lemma segments_with_dividers_Some:
  "segments_with_dividers segs (Some d) = between (map segment_text segs) [Align CT, Raster d]"
proof -
  have "printBody segs (Some d) [] = segments_with_dividers segs (Some d)"
    by (simp add: printBody_def forEach_def forEach_printSegment_enumerate
        segments_with_dividers_def)
  then show ?thesis by (simp add: printBody_between)
qed

lemma segments_with_dividers_None:
  "segments_with_dividers segs None = concat (map segment_text segs)"
proof -
  have "map (\<lambda>p. segment_text (snd p)) (enumerate n segs) = map segment_text segs" for n
    by (induction segs arbitrary: n) simp_all
  then show ?thesis
    by (simp add: segments_with_dividers_def case_prod_unfold)
qed

lemma printBody_segments_with_dividers:
  "printBody segs dv [] = segments_with_dividers segs dv"
  by (cases dv) (simp_all add: printBody_None printBody_between segments_with_dividers_None
      segments_with_dividers_Some)

lemma blank_not_in_segments:
  "trim s = [] \<Longrightarrow> Text s \<notin> set (segments_with_dividers segs dv)"
  using blank_not_printed[of s segs dv] by (simp add: printBody_segments_with_dividers)

lemma layout_before_details_cut:
  "layout_before_details imgs segs
     = layout_header imgs @ segments_with_dividers segs (dividerImage imgs)
       @ layout_after_body imgs"
  by (simp add: layout_before_details_def layout_header_def layout_after_body_def
      segments_with_dividers_None segments_with_dividers_Some split: option.splits)

lemma printReceipt_sent_cut:
  assumes "resolveAssets e (bodyImageBuffer args) (world0 files) = (Inr imgs, w)"
  shows "sent (conn_after (printReceipt e files [OpenCallback None, CloseCallback] args))
           = layout_header imgs
             @ segments_with_dividers (split (body args) DIVIDER_MARKER) (dividerImage imgs)
             @ layout_after_body imgs @ layout_closing imgs (orderDetails args)"
proof (cases "\<not> truthy (orderDetails args) \<or> typeof (orderDetails args) = ''string''")
  case True
  then have "layout_closing imgs (orderDetails args)
      = (case details_text (orderDetails args) of
           Some t \<Rightarrow> [Text NL2, Align LT, Text t, Text NL2] | None \<Rightarrow> [])
        @ layout_after_details imgs"
    by (auto simp: layout_closing_def)
  with printReceipt_normal_run(2)[OF assms True] show ?thesis
    by (simp add: receipt_layout_def layout_before_details_cut)
next
  case False
  then have t: "truthy (orderDetails args)" "typeof (orderDetails args) \<noteq> ''string''"
    by auto
  then have "layout_closing imgs (orderDetails args) = []"
    by (simp add: layout_closing_def)
  with printReceipt_TypeError_run(2)[OF assms t] show ?thesis
    by (simp add: layout_before_details_cut)
qed

lemma no_divider_raster_outside:
  assumes "headerImage imgs \<noteq> d" "bodyImage imgs \<noteq> Some d" "footerImage imgs \<noteq> Some d"
  shows "filter (\<lambda>x. x = Raster d) (layout_header imgs) = []"
    and "filter (\<lambda>x. x = Raster d) (layout_after_body imgs) = []"
    and "filter (\<lambda>x. x = Raster d) (layout_closing imgs od) = []"
  using assms
  by (auto simp: layout_header_def layout_after_body_def layout_closing_def
      layout_after_details_def split: option.splits)

section \<open>The asset phase and the cleanup\<close>

lemma rasterToTemp_calls:
  "sharp_calls (snd (rasterToTemp e role buf width w)) = sharp_calls w @ [(buf, width)]"
  by (simp add: rasterToTemp_def processImage_def Let_def
      split: sum.splits write_outcome.splits residue.splits)

lemma rasterToTemp_tracked:
  "tracked e files w \<Longrightarrow> tracked e files (snd (rasterToTemp e role buf width w))"
  by (auto simp: rasterToTemp_def processImage_def Let_def tracked_def
      split: sum.splits write_outcome.splits residue.splits if_splits)

lemma rasterToTemp_fst_cases:
  "fst (rasterToTemp e role buf width w) = convert_and_load e buf width
   \<or> write_failed (fst (rasterToTemp e role buf width w))"
  by (simp add: rasterToTemp_def processImage_def loadEscposImage_def convert_and_load_def
      Let_def split: sum.splits load_result.splits write_outcome.splits residue.splits)

lemma rasterOptional_unfold:
  "rasterOptional e role source width w =
     (case source of
        None \<Rightarrow> (Inr None, w)
      | Some buf \<Rightarrow>
          (case fst (rasterToTemp e role buf width w) of
             Inl err \<Rightarrow> Inl err
           | Inr img \<Rightarrow> Inr (Some img),
           snd (rasterToTemp e role buf width w)))"
  by (simp add: rasterOptional_def split: option.splits prod.splits sum.splits)

lemma rasterOptional_fst_cases:
  "fst (rasterOptional e role source width w) = convert_optional e source width
   \<or> write_failed (fst (rasterOptional e role source width w))"
proof (cases source)
  case None
  then show ?thesis by (simp add: rasterOptional_unfold convert_optional_def)
next
  case (Some buf)
  from rasterToTemp_fst_cases[of e role buf width w] show ?thesis
  proof
    assume "fst (rasterToTemp e role buf width w) = convert_and_load e buf width"
    with Some show ?thesis
      by (simp add: rasterOptional_unfold convert_optional_def)
  next
    assume "write_failed (fst (rasterToTemp e role buf width w))"
    then obtain msg where "fst (rasterToTemp e role buf width w) = Inl (WriteFailed msg)"
      by (cases "fst (rasterToTemp e role buf width w)" rule: write_failed.cases) auto
    with Some show ?thesis
      by (simp add: rasterOptional_unfold)
  qed
qed

lemma rasterOptional_calls:
  "sharp_calls (snd (rasterOptional e role source width w))
     = sharp_calls w @ (case source of None \<Rightarrow> [] | Some buf \<Rightarrow> [(buf, width)])"
  by (simp add: rasterOptional_unfold rasterToTemp_calls split: option.splits)

lemma rasterOptional_tracked:
  "tracked e files w \<Longrightarrow> tracked e files (snd (rasterOptional e role source width w))"
  by (simp add: rasterOptional_unfold rasterToTemp_tracked split: option.splits)

text \<open>resolveAssets as a chain of its steps, each seen through fst and snd.\<close>

lemma resolveAssets_unfold:
  "resolveAssets e b w =
     (case logo_png e of
        None \<Rightarrow> (Inl HeaderLogoNotFound, w)
      | Some h \<Rightarrow>
     (let s1 = rasterToTemp e ''header'' h PRINTER_WIDTH_PX w in
      case fst s1 of Inl err \<Rightarrow> (Inl err, snd s1) | Inr hi \<Rightarrow>
     (let s2 = rasterOptional e ''divider'' (divider_long_png e) PRINTER_WIDTH_PX (snd s1) in
      case fst s2 of Inl err \<Rightarrow> (Inl err, snd s2) | Inr di \<Rightarrow>
     (let s3 = rasterOptional e ''footer'' (footer_image_1_png e) FOOTER_IMAGE_WIDTH_PX (snd s2) in
      case fst s3 of Inl err \<Rightarrow> (Inl err, snd s3) | Inr fi \<Rightarrow>
     (let s4 = rasterOptional e ''body-img'' b FOOTER_IMAGE_WIDTH_PX (snd s3) in
      case fst s4 of Inl err \<Rightarrow> (Inl err, snd s4) | Inr bi \<Rightarrow>
        (Inr \<lparr>headerImage = hi, dividerImage = di, footerImage = fi, bodyImage = bi\<rparr>,
         snd s4))))))"
  by (simp add: resolveAssets_def Let_def split: option.splits prod.splits sum.splits)

text \<open>
  Unless a write throws, the asset phase ends as the converter and the loader alone
  decide.
\<close>

lemma resolveAssets_fst_cases:
  "fst (resolveAssets e b w) = resolved_images e b \<or> write_failed (fst (resolveAssets e b w))"
proof (cases "logo_png e")
  case None
  then show ?thesis by (simp add: resolveAssets_unfold resolved_images_def)
next
  case (Some h)
  let ?s1 = "rasterToTemp e ''header'' h PRINTER_WIDTH_PX w"
  let ?s2 = "rasterOptional e ''divider'' (divider_long_png e) PRINTER_WIDTH_PX (snd ?s1)"
  let ?s3 = "rasterOptional e ''footer'' (footer_image_1_png e) FOOTER_IMAGE_WIDTH_PX (snd ?s2)"
  let ?s4 = "rasterOptional e ''body-img'' b FOOTER_IMAGE_WIDTH_PX (snd ?s3)"
  note c1 = rasterToTemp_fst_cases[of e "''header''" h PRINTER_WIDTH_PX w]
  note c2 = rasterOptional_fst_cases[of e "''divider''" "divider_long_png e" PRINTER_WIDTH_PX "snd ?s1"]
  note c3 = rasterOptional_fst_cases[of e "''footer''" "footer_image_1_png e"
      FOOTER_IMAGE_WIDTH_PX "snd ?s2"]
  note c4 = rasterOptional_fst_cases[of e "''body-img''" b FOOTER_IMAGE_WIDTH_PX "snd ?s3"]
  show ?thesis
  proof (cases "fst ?s1")
    case (Inl err1)
    have ra: "fst (resolveAssets e b w) = Inl err1"
      using Some  Inl by (simp add: resolveAssets_unfold Let_def)
    from c1 show ?thesis
    proof
      assume "fst ?s1 = convert_and_load e h PRINTER_WIDTH_PX"
      with Inl have "convert_and_load e h PRINTER_WIDTH_PX = Inl err1" by simp
      with Some  have "resolved_images e b = Inl err1"
        by (simp add: resolved_images_def)
      with ra show ?thesis by simp
    next
      assume "write_failed (fst ?s1)"
      with Inl have "write_failed (Inl err1 :: error + images)"
        by (cases err1) simp_all
      with ra show ?thesis by simp
    qed
  next
    case i1: (Inr hi)
    with c1 have p1: "convert_and_load e h PRINTER_WIDTH_PX = Inr hi" by simp
    show ?thesis
    proof (cases "fst ?s2")
    case (Inl err2)
    have ra: "fst (resolveAssets e b w) = Inl err2"
      using Some i1 p1 Inl by (simp add: resolveAssets_unfold Let_def)
    from c2 show ?thesis
    proof
      assume "fst ?s2 = convert_optional e (divider_long_png e) PRINTER_WIDTH_PX"
      with Inl have "convert_optional e (divider_long_png e) PRINTER_WIDTH_PX = Inl err2" by simp
      with Some i1 p1 have "resolved_images e b = Inl err2"
        by (simp add: resolved_images_def)
      with ra show ?thesis by simp
    next
      assume "write_failed (fst ?s2)"
      with Inl have "write_failed (Inl err2 :: error + images)"
        by (cases err2) simp_all
      with ra show ?thesis by simp
    qed
    next
      case i2: (Inr di)
      with c2 have p2: "convert_optional e (divider_long_png e) PRINTER_WIDTH_PX = Inr di"
        by simp
      show ?thesis
      proof (cases "fst ?s3")
    case (Inl err3)
    have ra: "fst (resolveAssets e b w) = Inl err3"
      using Some i1 p1 i2 p2 Inl by (simp add: resolveAssets_unfold Let_def)
    from c3 show ?thesis
    proof
      assume "fst ?s3 = convert_optional e (footer_image_1_png e) FOOTER_IMAGE_WIDTH_PX"
      with Inl have "convert_optional e (footer_image_1_png e) FOOTER_IMAGE_WIDTH_PX = Inl err3" by simp
      with Some i1 p1 i2 p2 have "resolved_images e b = Inl err3"
        by (simp add: resolved_images_def)
      with ra show ?thesis by simp
    next
      assume "write_failed (fst ?s3)"
      with Inl have "write_failed (Inl err3 :: error + images)"
        by (cases err3) simp_all
      with ra show ?thesis by simp
    qed
      next
        case i3: (Inr fi)
        with c3 have p3: "convert_optional e (footer_image_1_png e) FOOTER_IMAGE_WIDTH_PX = Inr fi"
          by simp
        show ?thesis
        proof (cases "fst ?s4")
    case (Inl err4)
    have ra: "fst (resolveAssets e b w) = Inl err4"
      using Some i1 p1 i2 p2 i3 p3 Inl by (simp add: resolveAssets_unfold Let_def)
    from c4 show ?thesis
    proof
      assume "fst ?s4 = convert_optional e b FOOTER_IMAGE_WIDTH_PX"
      with Inl have "convert_optional e b FOOTER_IMAGE_WIDTH_PX = Inl err4" by simp
      with Some i1 p1 i2 p2 i3 p3 have "resolved_images e b = Inl err4"
        by (simp add: resolved_images_def)
      with ra show ?thesis by simp
    next
      assume "write_failed (fst ?s4)"
      with Inl have "write_failed (Inl err4 :: error + images)"
        by (cases err4) simp_all
      with ra show ?thesis by simp
    qed
        next
          case i4: (Inr bi)
          with c4 have p4: "convert_optional e b FOOTER_IMAGE_WIDTH_PX = Inr bi"
            by simp
          from Some i1 p1 i2 p2 i3 p3 i4 p4 show ?thesis
            by (simp add: resolveAssets_unfold resolved_images_def Let_def)
        qed
      qed
    qed
  qed
qed

lemma resolveAssets_fst_Inr:
  "fst (resolveAssets e b w) = Inr imgs \<Longrightarrow> resolved_images e b = Inr imgs"
  using resolveAssets_fst_cases[of e b w] by auto

lemma resolveAssets_tracked:
  "tracked e files w \<Longrightarrow> tracked e files (snd (resolveAssets e b w))"
  by (simp add: resolveAssets_unfold Let_def rasterToTemp_tracked rasterOptional_tracked
      split: option.splits sum.splits)

lemma resolveAssets_calls_prefix:
  "prefix (sharp_calls (snd (resolveAssets e b w))) (sharp_calls w @ expected_sharp_calls e b)"
  by (simp add: resolveAssets_unfold Let_def expected_sharp_calls_def rasterToTemp_calls
      rasterOptional_calls split: option.splits sum.splits)

lemma resolveAssets_calls_all:
  assumes "fst (resolveAssets e b w) = Inr imgs"
  shows "sharp_calls (snd (resolveAssets e b w)) = sharp_calls w @ expected_sharp_calls e b"
proof -
  obtain h where h: "logo_png e = Some h"
    using assms by (cases "logo_png e") (auto simp: resolveAssets_unfold)
  let ?s1 = "rasterToTemp e ''header'' h PRINTER_WIDTH_PX w"
  let ?s2 = "rasterOptional e ''divider'' (divider_long_png e) PRINTER_WIDTH_PX (snd ?s1)"
  let ?s3 = "rasterOptional e ''footer'' (footer_image_1_png e) FOOTER_IMAGE_WIDTH_PX (snd ?s2)"
  let ?s4 = "rasterOptional e ''body-img'' b FOOTER_IMAGE_WIDTH_PX (snd ?s3)"
  from assms h obtain hi where i1: "fst ?s1 = Inr hi"
    by (cases "fst ?s1") (auto simp: resolveAssets_unfold Let_def)
  from assms h i1 obtain di where i2: "fst ?s2 = Inr di"
    by (cases "fst ?s2") (auto simp: resolveAssets_unfold Let_def)
  from assms h i1 i2 obtain fi where i3: "fst ?s3 = Inr fi"
    by (cases "fst ?s3") (auto simp: resolveAssets_unfold Let_def)
  from assms h i1 i2 i3 obtain bi where i4: "fst ?s4 = Inr bi"
    by (cases "fst ?s4") (auto simp: resolveAssets_unfold Let_def)
  from h i1 i2 i3 i4 show ?thesis
    by (simp add: resolveAssets_unfold Let_def rasterToTemp_calls rasterOptional_calls
        expected_sharp_calls_def)
qed

lemma cleanup_tmp:
  "tmp (cleanup e ps w) p = (if p \<in> set ps \<and> \<not> unlink_throws e p then None else tmp w p)"
  by (induction ps arbitrary: w) auto

lemma cleanup_tempFiles: "tempFiles (cleanup e ps w) = tempFiles w"
  by (induction ps arbitrary: w) auto

lemma cleanup_sharp_calls: "sharp_calls (cleanup e ps w) = sharp_calls w"
  by (induction ps arbitrary: w) auto

lemma cleanup_warnings:
  "warnings (cleanup e ps w)
     = warnings w @ filter (\<lambda>p. tmp w p \<noteq> None \<and> unlink_throws e p) ps"
proof (induction ps arbitrary: w)
  case Nil
  then show ?case by simp
next
  case (Cons p ps)
  show ?case
  proof (cases "tmp w p \<noteq> None \<and> \<not> unlink_throws e p")
    case True
    have "filter (\<lambda>q. ((tmp w)(p := None)) q \<noteq> None \<and> unlink_throws e q) ps
            = filter (\<lambda>q. tmp w q \<noteq> None \<and> unlink_throws e q) ps"
      using True by (intro filter_cong) auto
    with True Cons.IH[of "w\<lparr>tmp := (tmp w)(p := None)\<rparr>"] show ?thesis
      by simp
  next
    case False
    with Cons.IH[of w] Cons.IH[of "w\<lparr>warnings := warnings w @ [p]\<rparr>"] show ?thesis
      by auto
  qed
qed

lemma tracked_world0: "tracked e files (world0 files)"
  by (simp add: tracked_def world0_def)

lemma sharp_calls_world0: "sharp_calls (world0 files) = []"
  by (simp add: world0_def)

text \<open>printReceipt seen through the two components of the asset phase.\<close>

lemma printReceipt_unfold:
  "printReceipt e files evs args =
     (let w = snd (resolveAssets e (bodyImageBuffer args) (world0 files)) in
      case fst (resolveAssets e (bodyImageBuffer args) (world0 files)) of
        Inl err \<Rightarrow>
          \<lparr>result = Some (Inl err), world_after = cleanup e (tempFiles w) w,
           conn_after = conn0\<lparr>timer_armed := False\<rparr>\<rparr>
      | Inr imgs \<Rightarrow>
          (let c = deliver imgs (split (body args) DIVIDER_MARKER) (orderDetails args) evs conn0
           in case settled c of
                None \<Rightarrow> \<lparr>result = None, world_after = w, conn_after = c\<rparr>
              | Some r \<Rightarrow>
                  \<lparr>result = Some r, world_after = cleanup e (tempFiles w) w,
                   conn_after = c\<rparr>))"
  by (cases "resolveAssets e (bodyImageBuffer args) (world0 files)")
     (simp add: printReceipt_def Let_def split: sum.splits)

lemma printReceipt_returned_world:
  "result (printReceipt e files evs args) \<noteq> None \<Longrightarrow>
   world_after (printReceipt e files evs args)
     = cleanup e (tempFiles (snd (resolveAssets e (bodyImageBuffer args) (world0 files))))
         (snd (resolveAssets e (bodyImageBuffer args) (world0 files)))"
  by (simp add: printReceipt_unfold Let_def split: sum.splits option.splits)

lemma printReceipt_sharp_calls:
  "sharp_calls (world_after (printReceipt e files evs args))
     = sharp_calls (snd (resolveAssets e (bodyImageBuffer args) (world0 files)))"
  by (simp add: printReceipt_unfold Let_def cleanup_sharp_calls split: sum.splits option.splits)

lemma printReceipt_tempFiles:
  "tempFiles (world_after (printReceipt e files evs args))
     = tempFiles (snd (resolveAssets e (bodyImageBuffer args) (world0 files)))"
  by (simp add: printReceipt_unfold Let_def cleanup_tempFiles split: sum.splits option.splits)

text \<open>
  The call returns: the timer stays armed until the promise settles, so the call has
  returned at the latest when the timer has fired.
\<close>

lemma on_event_keeps_settled:
  "settled c \<noteq> None \<Longrightarrow> settled (on_event imgs segs od ev c) = settled c"
  by (cases "(imgs, segs, od, ev, c)" rule: on_event.cases)
     (auto simp: settle_def clearTimeout_def split: prod.splits option.splits)

lemma on_event_timer_invariant:
  "(settled c = None \<longrightarrow> timer_armed c) \<Longrightarrow>
   settled (on_event imgs segs od ev c) = None \<longrightarrow> timer_armed (on_event imgs segs od ev c)"
  by (cases "(imgs, segs, od, ev, c)" rule: on_event.cases)
     (auto simp: settle_def clearTimeout_def split: prod.splits option.splits)

lemma deliver_keeps_settled:
  "settled c \<noteq> None \<Longrightarrow> settled (deliver imgs segs od evs c) \<noteq> None"
  unfolding deliver_def
  by (induction evs arbitrary: c) (simp_all add: on_event_keeps_settled)

lemma deliver_settles_when_timer_fires:
  "TimerFired \<in> set evs \<Longrightarrow> settled c = None \<longrightarrow> timer_armed c \<Longrightarrow>
   settled (deliver imgs segs od evs c) \<noteq> None"
proof (induction evs arbitrary: c)
  case Nil
  then show ?case by simp
next
  case (Cons ev evs)
  show ?case
  proof (cases "ev = TimerFired")
    case True
    with Cons.prems(2) have "settled (on_event imgs segs od ev c) \<noteq> None"
      by (auto simp: settle_def)
    from deliver_keeps_settled[OF this] show ?thesis
      by (simp add: deliver_def)
  next
    case False
    with Cons.prems(1) have "TimerFired \<in> set evs" by auto
    from Cons.IH[OF this on_event_timer_invariant[OF Cons.prems(2)]] show ?thesis
      by (simp add: deliver_def)
  qed
qed

lemma printReceipt_returns_when_timer_fires:
  assumes "TimerFired \<in> set evs"
  shows "result (printReceipt e files evs args) \<noteq> None"
proof (cases "fst (resolveAssets e (bodyImageBuffer args) (world0 files))")
  case (Inl err)
  then show ?thesis
    by (simp add: printReceipt_unfold Let_def)
next
  case (Inr imgs)
  have "settled (deliver imgs (split (body args) DIVIDER_MARKER) (orderDetails args) evs conn0)
          \<noteq> None"
    by (rule deliver_settles_when_timer_fires[OF assms]) (simp add: conn0_def)
  with Inr show ?thesis
    by (auto simp: printReceipt_unfold Let_def)
qed

lemma example_world:
  assumes "logo_png e = Some [1]" "divider_long_png e = Some [2]"
    "footer_image_1_png e = Some [3]" "tmpdir e = ascii ''/tmp''"
    "date_now e = (\<lambda>k. 42 + k)" "sharp e = (\<lambda>buf width. Inr buf)"
    "image_load e = (\<lambda>bytes. Loaded (Image bytes))"
    "write_file e = (\<lambda>p bytes. Written)"
  shows "resolveAssets e None (world0 files)
     = (Inr example_images,
        \<lparr>tmp = files(ascii ''/tmp/receipt-header-42.png'' \<mapsto> [1],
                     ascii ''/tmp/receipt-divider-43.png'' \<mapsto> [2],
                     ascii ''/tmp/receipt-footer-44.png'' \<mapsto> [3]),
         tempFiles = [ascii ''/tmp/receipt-header-42.png'',
                      ascii ''/tmp/receipt-divider-43.png'',
                      ascii ''/tmp/receipt-footer-44.png''],
         clock_reads = 3,
         sharp_calls = [([1], PRINTER_WIDTH_PX), ([2], PRINTER_WIDTH_PX),
                        ([3], FOOTER_IMAGE_WIDTH_PX)],
         warnings = []\<rparr>)"
  by (simp add: resolveAssets_def assms rasterToTemp_def rasterOptional_def
      processImage_def loadEscposImage_def world0_def Let_def example_images_def
      path_join_def posix_normalize_def normalizeString_def normalize_step_def split.simps
      decimal.simps[of "numeral n" for n] ascii_def code_unit_def)

lemma example_env_world:
  "resolveAssets example_env (bodyImageBuffer example_args) (world0 no_files)
     = (Inr example_images,
        \<lparr>tmp = no_files(ascii ''/tmp/receipt-header-42.png'' \<mapsto> [1],
                     ascii ''/tmp/receipt-divider-43.png'' \<mapsto> [2],
                     ascii ''/tmp/receipt-footer-44.png'' \<mapsto> [3]),
         tempFiles = [ascii ''/tmp/receipt-header-42.png'',
                      ascii ''/tmp/receipt-divider-43.png'',
                      ascii ''/tmp/receipt-footer-44.png''],
         clock_reads = 3,
         sharp_calls = [([1], PRINTER_WIDTH_PX), ([2], PRINTER_WIDTH_PX),
                        ([3], FOOTER_IMAGE_WIDTH_PX)],
         warnings = []\<rparr>)"
  using example_world[of example_env no_files]
  by (simp add: example_env_def example_args_def)

lemma readonly_env_world:
  "resolveAssets readonly_env (bodyImageBuffer example_args) (world0 no_files)
     = (Inr example_images,
        \<lparr>tmp = no_files(ascii ''/tmp/receipt-header-42.png'' \<mapsto> [1],
                     ascii ''/tmp/receipt-divider-43.png'' \<mapsto> [2],
                     ascii ''/tmp/receipt-footer-44.png'' \<mapsto> [3]),
         tempFiles = [ascii ''/tmp/receipt-header-42.png'',
                      ascii ''/tmp/receipt-divider-43.png'',
                      ascii ''/tmp/receipt-footer-44.png''],
         clock_reads = 3,
         sharp_calls = [([1], PRINTER_WIDTH_PX), ([2], PRINTER_WIDTH_PX),
                        ([3], FOOTER_IMAGE_WIDTH_PX)],
         warnings = []\<rparr>)"
  using example_world[of readonly_env no_files]
  by (simp add: readonly_env_def example_env_def example_args_def)

lemma example_args_details:
  "\<not> truthy (orderDetails example_args) \<or> typeof (orderDetails example_args) = ''string''"
  by (simp add: example_args_def)

lemma widths_differ: "PRINTER_WIDTH_PX \<noteq> FOOTER_IMAGE_WIDTH_PX"
  by (simp add: FOOTER_IMAGE_WIDTH_PX_def PRINTER_WIDTH_PX_def Math_round_def)

lemma deliver_timeout_first:
  assumes "\<not> truthy od \<or> typeof od = ''string''"
  shows "deliver imgs segs od [TimerFired] conn0
           = \<lparr>settled = Some (Inl PrinterConnectionTimeout), timer_armed = False,
              sent = [], device_close_called = False\<rparr>"
    and "deliver imgs segs od [TimerFired, OpenCallback None, CloseCallback] conn0
           = \<lparr>settled = Some (Inl PrinterConnectionTimeout), timer_armed = False,
              sent = receipt_layout imgs segs (details_text od),
              device_close_called = False\<rparr>"
  by (simp_all add: deliver_def conn0_def settle_def clearTimeout_def
      printJob_layout[OF assms] receipt_layout_def layout_after_details_def)

lemma resolved_images_cong:
  assumes "logo_png e1 = logo_png e2" "divider_long_png e1 = divider_long_png e2"
    "footer_image_1_png e1 = footer_image_1_png e2"
    "sharp e1 = sharp e2" "image_load e1 = image_load e2"
  shows "resolved_images e1 b = resolved_images e2 b"
proof -
  have cl: "convert_and_load e1 = convert_and_load e2"
    unfolding convert_and_load_def assms(4,5) ..
  have co: "convert_optional e1 = convert_optional e2"
    unfolding convert_optional_def cl ..
  show ?thesis
    unfolding resolved_images_def cl co assms(1,2,3) ..
qed

section \<open>Segments and dividers in the receipt\<close>

text \<open>
  C1. When the assets resolve with a divider image, the connection opens and the printer
  closes, printReceipt splits a body text with k occurrences of the divider marker into
  k + 1 segments, and the directives it sends are the header part, then the groups of the
  segments with the divider group in every gap between two consecutive segments (none
  before the first or after the last), then the rest of the receipt; the divider raster
  occurs exactly k times between the segments, and exactly k times in all that is sent
  when no other image of the receipt is the divider image.
\<close>

theorem C1_segments_and_dividers:
  assumes "resolveAssets e (bodyImageBuffer args) (world0 files) = (Inr imgs, w)"
      and "dividerImage imgs = Some d"
  shows "length (split (body args) DIVIDER_MARKER) = occurrences DIVIDER_MARKER (body args) + 1
     \<and> sent (conn_after (printReceipt e files [OpenCallback None, CloseCallback] args))
         = layout_header imgs
           @ between (map segment_text (split (body args) DIVIDER_MARKER)) [Align CT, Raster d]
           @ layout_after_body imgs @ layout_closing imgs (orderDetails args)
     \<and> length (filter (\<lambda>x. x = Raster d)
           (between (map segment_text (split (body args) DIVIDER_MARKER)) [Align CT, Raster d]))
         = occurrences DIVIDER_MARKER (body args)
     \<and> (headerImage imgs \<noteq> d \<and> bodyImage imgs \<noteq> Some d \<and> footerImage imgs \<noteq> Some d \<longrightarrow>
          length (filter (\<lambda>x. x = Raster d)
            (sent (conn_after (printReceipt e files [OpenCallback None, CloseCallback] args))))
          = occurrences DIVIDER_MARKER (body args))"
proof -
  let ?segs = "split (body args) DIVIDER_MARKER"
  let ?run = "printReceipt e files [OpenCallback None, CloseCallback] args"
  have n: "length ?segs = Suc (occurrences DIVIDER_MARKER (body args))"
    by (rule length_split_occurrences[OF marker_borderless])
  have cut: "sent (conn_after ?run)
         = layout_header imgs @ between (map segment_text ?segs) [Align CT, Raster d]
           @ layout_after_body imgs @ layout_closing imgs (orderDetails args)"
    using printReceipt_sent_cut[OF assms(1)]
    by (simp add: assms(2) segments_with_dividers_Some)
  have k: "length (filter (\<lambda>x. x = Raster d)
             (between (map segment_text ?segs) [Align CT, Raster d]))
           = occurrences DIVIDER_MARKER (body args)"
    using n by (simp add: count_rasters_between)
  have all: "length (filter (\<lambda>x. x = Raster d) (sent (conn_after ?run)))
           = occurrences DIVIDER_MARKER (body args)"
    if "headerImage imgs \<noteq> d \<and> bodyImage imgs \<noteq> Some d \<and> footerImage imgs \<noteq> Some d"
  proof -
    from that have o: "headerImage imgs \<noteq> d" "bodyImage imgs \<noteq> Some d"
      "footerImage imgs \<noteq> Some d"
      by simp_all
    show ?thesis
      unfolding cut filter_append length_append
        no_divider_raster_outside[OF o] k
      by simp
  qed
  from n cut k all show ?thesis by simp
qed

lemma example_segment_texts:
  "segment_text (ascii ''Hello'') = [Align LT, Text (ascii ''Hello'')]"
  "segment_text (ascii ''World'') = [Align LT, Text (ascii ''World'')]"
  "segment_text (ascii ''A'') = [Align LT, Text (ascii ''A'')]"
  "segment_text (ascii ''B'') = [Align LT, Text (ascii ''B'')]"
  "segment_text (ascii ''C'') = [Align LT, Text (ascii ''C'')]"
  "segment_text (ascii '' '') = []"
  by (simp_all add: segment_text_def trim_def is_whitespace_def ascii_def code_unit_def)

theorem C1_witness:
  "occurrences DIVIDER_MARKER (body example_args) = 1
   \<and> length (split (body example_args) DIVIDER_MARKER) = 2
   \<and> sent (conn_after (printReceipt example_env no_files [OpenCallback None, CloseCallback]
        example_args))
       = layout_header example_images
         @ [Align LT, Text (ascii ''Hello''), Align CT, Raster (Image [2]),
            Align LT, Text (ascii ''World'')]
         @ layout_after_body example_images
         @ layout_closing example_images (orderDetails example_args)
   \<and> length (filter (\<lambda>x. x = Raster (Image [2]))
        (sent (conn_after (printReceipt example_env no_files [OpenCallback None, CloseCallback]
           example_args)))) = 1"
proof -
  have occ: "occurrences DIVIDER_MARKER (body example_args) = 1"
    by (simp add: example_args_def DIVIDER_MARKER_def ascii_def code_unit_def)
  have sp: "split (body example_args) DIVIDER_MARKER = [ascii ''Hello'', ascii ''World'']"
    by (simp add: example_args_def split_example)
  have imgs: "dividerImage example_images = Some (Image [2])"
    "headerImage example_images \<noteq> Image [2] \<and> bodyImage example_images \<noteq> Some (Image [2])
       \<and> footerImage example_images \<noteq> Some (Image [2])"
    by (simp_all add: example_images_def)
  note c1 = C1_segments_and_dividers[OF example_env_world imgs(1)]
  let ?run = "printReceipt example_env no_files [OpenCallback None, CloseCallback] example_args"
  from c1 have "length (split (body example_args) DIVIDER_MARKER)
                  = occurrences DIVIDER_MARKER (body example_args) + 1"
    by blast
  then have n: "length (split (body example_args) DIVIDER_MARKER) = 2"
    by (simp add: occ)
  from c1 have "sent (conn_after ?run)
       = layout_header example_images
         @ between (map segment_text (split (body example_args) DIVIDER_MARKER))
             [Align CT, Raster (Image [2])]
         @ layout_after_body example_images
         @ layout_closing example_images (orderDetails example_args)"
    by blast
  then have s: "sent (conn_after ?run)
       = layout_header example_images
         @ [Align LT, Text (ascii ''Hello''), Align CT, Raster (Image [2]),
            Align LT, Text (ascii ''World'')]
         @ layout_after_body example_images
         @ layout_closing example_images (orderDetails example_args)"
    by (simp only: sp) (simp add: example_segment_texts)
  from c1 imgs(2) have "length (filter (\<lambda>x. x = Raster (Image [2])) (sent (conn_after ?run)))
                          = occurrences DIVIDER_MARKER (body example_args)"
    by blast
  then have k: "length (filter (\<lambda>x. x = Raster (Image [2])) (sent (conn_after ?run))) = 1"
    by (simp only: occ)
  from occ n s k show ?thesis by blast
qed

section \<open>The fixed order of the receipt\<close>

text \<open>
  C2. When the assets resolve, the connection opens and the printer closes, the call
  succeeds and the directives sent are exactly the fixed layout: init, blank feed,
  centered header raster, blank feed, the segments as left-aligned text with centered
  divider rasters between them, blank feed, the optional centered body image and its
  feed, the centered bold branded footer at density 15 with density 8 restored and a
  blank feed, the optional order details (blank feed, left-aligned text, blank feed),
  the optional centered footer raster, feed(3), cut, close. For the body
  \<^verbatim>\<open>Hello{{divider}}World\<close> with a divider image the sequence contains header raster,
  Text Hello, divider raster, Text World, branded footer and cut in this order. The order
  details are taken to be absent or a string, as the signature of printReceipt documents.
\<close>

theorem C2_fixed_order:
  assumes "resolveAssets e (bodyImageBuffer args) (world0 files) = (Inr imgs, w)"
  shows "prefix (sent (conn_after (printReceipt e files [OpenCallback None, CloseCallback] args)))
           (receipt_layout imgs (split (body args) DIVIDER_MARKER)
              (details_text (orderDetails args)))
     \<and> (\<not> truthy (orderDetails args) \<or> typeof (orderDetails args) = ''string'' \<longrightarrow>
          result (printReceipt e files [OpenCallback None, CloseCallback] args) = Some (Inr ())
        \<and> sent (conn_after (printReceipt e files [OpenCallback None, CloseCallback] args))
            = receipt_layout imgs (split (body args) DIVIDER_MARKER)
                (details_text (orderDetails args))
        \<and> (body args = ascii ''Hello{{divider}}World'' \<longrightarrow> dividerImage imgs = Some d \<longrightarrow>
             subseq [Raster (headerImage imgs), Text (ascii ''Hello''), Raster d,
                     Text (ascii ''World''), Text BRANDED_FOOTER, Cut]
               (sent (conn_after (printReceipt e files [OpenCallback None, CloseCallback] args)))))"
proof (intro conjI impI)
  show "prefix (sent (conn_after (printReceipt e files [OpenCallback None, CloseCallback] args)))
           (receipt_layout imgs (split (body args) DIVIDER_MARKER)
              (details_text (orderDetails args)))"
    by (rule printReceipt_sent_prefix[OF assms])
next
  assume od: "\<not> truthy (orderDetails args) \<or> typeof (orderDetails args) = ''string''"
  show "result (printReceipt e files [OpenCallback None, CloseCallback] args) = Some (Inr ())"
    by (rule printReceipt_normal_run(1)[OF assms od])
  show "sent (conn_after (printReceipt e files [OpenCallback None, CloseCallback] args))
            = receipt_layout imgs (split (body args) DIVIDER_MARKER)
                (details_text (orderDetails args))"
    by (rule printReceipt_normal_run(2)[OF assms od])
  assume "body args = ascii ''Hello{{divider}}World''" "dividerImage imgs = Some d"
  with printReceipt_normal_run(2)[OF assms od] subseq_example_layout[of imgs d]
  show "subseq [Raster (headerImage imgs), Text (ascii ''Hello''), Raster d,
                     Text (ascii ''World''), Text BRANDED_FOOTER, Cut]
               (sent (conn_after (printReceipt e files [OpenCallback None, CloseCallback] args)))"
    by (simp add: split_example)
qed

theorem C2_witness:
  "sent (conn_after (printReceipt example_env no_files [OpenCallback None, CloseCallback]
           example_args))
     = [Raw [0x1b, 0x40], Text NL2, Align CT, Raster (Image [1]), Text NL2,
        Align LT, Text (ascii ''Hello''), Align CT, Raster (Image [2]),
        Align LT, Text (ascii ''World''), Text NL2,
        Align CT, Raw [0x1d, 0x28, 0x45, 0x02, 0x00, 0x31, 0x0f], Style B,
        Text BRANDED_FOOTER, Style NORMAL,
        Raw [0x1d, 0x28, 0x45, 0x02, 0x00, 0x31, 0x08], Text NL2,
        Align CT, Raster (Image [3]), Feed 3, Cut, Close]
   \<and> subseq [Raster (Image [1]), Text (ascii ''Hello''), Raster (Image [2]),
              Text (ascii ''World''), Text BRANDED_FOOTER, Cut]
        (sent (conn_after (printReceipt example_env no_files
           [OpenCallback None, CloseCallback] example_args)))"
proof -
  note ra = example_env_world
  note od = example_args_details
  have grp: "segment_text (ascii ''Hello'') = [Align LT, Text (ascii ''Hello'')]"
    "segment_text (ascii ''World'') = [Align LT, Text (ascii ''World'')]"
    by (simp_all add: segment_text_def trim_def is_whitespace_def ascii_def code_unit_def)
  have b: "body example_args = ascii ''Hello{{divider}}World''"
    "orderDetails example_args = JNull"
    by (simp_all add: example_args_def)
  have imgs: "headerImage example_images = Image [1]"
    "dividerImage example_images = Some (Image [2])"
    by (simp_all add: example_images_def)
  note c2 = C2_fixed_order[OF ra, of "Image [2]"]
  from c2 od b(1) imgs(2)
  have "subseq [Raster (headerImage example_images), Text (ascii ''Hello''),
              Raster (Image [2]), Text (ascii ''World''), Text BRANDED_FOOTER, Cut]
        (sent (conn_after (printReceipt example_env no_files
           [OpenCallback None, CloseCallback] example_args)))"
    by blast
  then have sub: "subseq [Raster (Image [1]), Text (ascii ''Hello''), Raster (Image [2]),
              Text (ascii ''World''), Text BRANDED_FOOTER, Cut]
        (sent (conn_after (printReceipt example_env no_files
           [OpenCallback None, CloseCallback] example_args)))"
    by (simp only: imgs(1))
  from c2 od
  have "sent (conn_after (printReceipt example_env no_files [OpenCallback None, CloseCallback]
           example_args))
         = receipt_layout example_images (split (body example_args) DIVIDER_MARKER)
             (details_text (orderDetails example_args))"
    by blast
  then have "sent (conn_after (printReceipt example_env no_files
           [OpenCallback None, CloseCallback] example_args))
         = receipt_layout example_images [ascii ''Hello'', ascii ''World''] None"
    by (simp add: b split_example)
  then have "sent (conn_after (printReceipt example_env no_files
           [OpenCallback None, CloseCallback] example_args))
     = [Raw [0x1b, 0x40], Text NL2, Align CT, Raster (Image [1]), Text NL2,
        Align LT, Text (ascii ''Hello''), Align CT, Raster (Image [2]),
        Align LT, Text (ascii ''World''), Text NL2,
        Align CT, Raw [0x1d, 0x28, 0x45, 0x02, 0x00, 0x31, 0x0f], Style B,
        Text BRANDED_FOOTER, Style NORMAL,
        Raw [0x1d, 0x28, 0x45, 0x02, 0x00, 0x31, 0x08], Text NL2,
        Align CT, Raster (Image [3]), Feed 3, Cut, Close]"
    by (simp add: receipt_layout_def layout_before_details_def layout_after_details_def grp
        example_images_def)
  then show ?thesis using sub by (rule conjI)
qed

text \<open>
  C9. In a successful run, order details that are a non-blank string are printed as one
  block after the branded footer whose text is the trimmed string; order details that
  are absent (falsy) or blank add no directive at all.
\<close>

theorem C9_order_details_trimmed:
  assumes "resolveAssets e (bodyImageBuffer args) (world0 files) = (Inr imgs, w)"
  shows "(orderDetails args = JString s \<and> trim s \<noteq> [] \<longrightarrow>
            sent (conn_after (printReceipt e files [OpenCallback None, CloseCallback] args))
              = layout_before_details imgs (split (body args) DIVIDER_MARKER)
                @ [Text NL2, Align LT, Text (trim s), Text NL2]
                @ layout_after_details imgs)
       \<and> (\<not> truthy (orderDetails args) \<or> (orderDetails args = JString s \<and> trim s = []) \<longrightarrow>
            sent (conn_after (printReceipt e files [OpenCallback None, CloseCallback] args))
              = layout_before_details imgs (split (body args) DIVIDER_MARKER)
                @ layout_after_details imgs)"
proof (intro conjI impI)
  assume a: "orderDetails args = JString s \<and> trim s \<noteq> []"
  then have "\<not> truthy (orderDetails args) \<or> typeof (orderDetails args) = ''string''"
    by simp
  from printReceipt_normal_run(2)[OF assms this] a
  show "sent (conn_after (printReceipt e files [OpenCallback None, CloseCallback] args))
              = layout_before_details imgs (split (body args) DIVIDER_MARKER)
                @ [Text NL2, Align LT, Text (trim s), Text NL2]
                @ layout_after_details imgs"
    by (simp add: receipt_layout_def)
next
  assume a: "\<not> truthy (orderDetails args) \<or> (orderDetails args = JString s \<and> trim s = [])"
  then have t: "\<not> truthy (orderDetails args) \<or> typeof (orderDetails args) = ''string''"
    by auto
  from a have "details_text (orderDetails args) = None"
    by (cases "orderDetails args") (auto simp: trim_Nil)
  with printReceipt_normal_run(2)[OF assms t]
  show "sent (conn_after (printReceipt e files [OpenCallback None, CloseCallback] args))
              = layout_before_details imgs (split (body args) DIVIDER_MARKER)
                @ layout_after_details imgs"
    by (simp add: receipt_layout_def)
qed

theorem C9_witness:
  "sent (conn_after (printReceipt example_env no_files [OpenCallback None, CloseCallback]
           (example_args\<lparr>orderDetails := JString (ascii '' Table 5   '')\<rparr>)))
     = layout_before_details example_images [ascii ''Hello'', ascii ''World'']
       @ [Text NL2, Align LT, Text (ascii ''Table 5''), Text NL2]
       @ layout_after_details example_images"
proof -
  have ra: "resolveAssets example_env
              (bodyImageBuffer (example_args\<lparr>orderDetails := JString (ascii '' Table 5   '')\<rparr>))
              (world0 no_files)
              = (Inr example_images,
                 snd (resolveAssets example_env (bodyImageBuffer example_args) (world0 no_files)))"
    by (simp add: example_env_world)
  have t: "trim (ascii '' Table 5   '') = ascii ''Table 5''"
    by (simp add: trim_def is_whitespace_def ascii_def code_unit_def)
  have b: "body (example_args\<lparr>orderDetails := JString (ascii '' Table 5   '')\<rparr>)
             = ascii ''Hello{{divider}}World''"
    by (simp add: example_args_def)
  have od: "orderDetails (example_args\<lparr>orderDetails := JString (ascii '' Table 5   '')\<rparr>)
              = JString (ascii '' Table 5   '')"
    by simp
  have ne: "trim (ascii '' Table 5   '') \<noteq> []"
    unfolding t by (simp add: ascii_def)
  from C9_order_details_trimmed[OF ra, of "ascii '' Table 5   ''"] od ne
  have "sent (conn_after (printReceipt example_env no_files [OpenCallback None, CloseCallback]
           (example_args\<lparr>orderDetails := JString (ascii '' Table 5   '')\<rparr>)))
     = layout_before_details example_images
         (split (body (example_args\<lparr>orderDetails := JString (ascii '' Table 5   '')\<rparr>))
            DIVIDER_MARKER)
       @ [Text NL2, Align LT, Text (trim (ascii '' Table 5   '')), Text NL2]
       @ layout_after_details example_images"
    by blast
  then show ?thesis
    by (simp only: b split_example t)
qed

section \<open>Blank segments\<close>

text \<open>
  C3. When the assets resolve, the connection opens and the printer closes, the
  directives printReceipt sends between the header part and the rest of the receipt are,
  for each segment of the split in turn, its left-aligned text unless the segment is
  blank, followed by the divider unless the segment is the last. A blank segment
  contributes no Text directive there, yet keeps its position: the centred divider
  directives of two runs that differ only in their body texts are the same whenever the
  two splits have the same number of segments, whichever segments are blank.
\<close>

theorem C3_blank_segments:
  assumes "resolveAssets e (bodyImageBuffer args) (world0 files) = (Inr imgs, w)"
  shows "sent (conn_after (printReceipt e files [OpenCallback None, CloseCallback] args))
         = layout_header imgs
           @ segments_with_dividers (split (body args) DIVIDER_MARKER) (dividerImage imgs)
           @ layout_after_body imgs @ layout_closing imgs (orderDetails args)
     \<and> (trim s = [] \<longrightarrow>
          Text s \<notin> set (segments_with_dividers (split (body args) DIVIDER_MARKER)
                          (dividerImage imgs)))
     \<and> (bodyImageBuffer args' = bodyImageBuffer args \<and> orderDetails args' = orderDetails args
          \<and> length (split (body args') DIVIDER_MARKER) = length (split (body args) DIVIDER_MARKER)
          \<and> dividerImage imgs = Some d \<longrightarrow>
          filter (\<lambda>x. x = Align CT \<or> x = Raster d)
            (sent (conn_after (printReceipt e files [OpenCallback None, CloseCallback] args')))
          = filter (\<lambda>x. x = Align CT \<or> x = Raster d)
            (sent (conn_after (printReceipt e files [OpenCallback None, CloseCallback] args))))"
proof (intro conjI impI)
  show "sent (conn_after (printReceipt e files [OpenCallback None, CloseCallback] args))
         = layout_header imgs
           @ segments_with_dividers (split (body args) DIVIDER_MARKER) (dividerImage imgs)
           @ layout_after_body imgs @ layout_closing imgs (orderDetails args)"
    by (rule printReceipt_sent_cut[OF assms])
next
  assume "trim s = []"
  then show "Text s \<notin> set (segments_with_dividers (split (body args) DIVIDER_MARKER)
                          (dividerImage imgs))"
    by (rule blank_not_in_segments)
next
  assume a: "bodyImageBuffer args' = bodyImageBuffer args \<and> orderDetails args' = orderDetails args
          \<and> length (split (body args') DIVIDER_MARKER) = length (split (body args) DIVIDER_MARKER)
          \<and> dividerImage imgs = Some d"
  then have ra': "resolveAssets e (bodyImageBuffer args') (world0 files) = (Inr imgs, w)"
    using assms by simp
  from a show "filter (\<lambda>x. x = Align CT \<or> x = Raster d)
            (sent (conn_after (printReceipt e files [OpenCallback None, CloseCallback] args')))
          = filter (\<lambda>x. x = Align CT \<or> x = Raster d)
            (sent (conn_after (printReceipt e files [OpenCallback None, CloseCallback] args)))"
    by (simp add: printReceipt_sent_cut[OF assms] printReceipt_sent_cut[OF ra']
        segments_with_dividers_Some dividers_of_between)
qed

lemma split_blank_example:
  "split (ascii ''A{{divider}} {{divider}}B'') DIVIDER_MARKER
     = [ascii ''A'', ascii '' '', ascii ''B'']"
  "split (ascii ''A{{divider}}B{{divider}}C'') DIVIDER_MARKER
     = [ascii ''A'', ascii ''B'', ascii ''C'']"
  by (simp_all add: split.simps DIVIDER_MARKER_def ascii_def code_unit_def)

theorem C3_witness:
  "trim (ascii '' '') = []
   \<and> sent (conn_after (printReceipt example_env no_files [OpenCallback None, CloseCallback]
        (example_args\<lparr>body := ascii ''A{{divider}} {{divider}}B''\<rparr>)))
       = layout_header example_images
         @ [Align LT, Text (ascii ''A''), Align CT, Raster (Image [2]),
            Align CT, Raster (Image [2]), Align LT, Text (ascii ''B'')]
         @ layout_after_body example_images
         @ layout_closing example_images JNull
   \<and> filter (\<lambda>x. x = Align CT \<or> x = Raster (Image [2]))
        (sent (conn_after (printReceipt example_env no_files [OpenCallback None, CloseCallback]
           (example_args\<lparr>body := ascii ''A{{divider}}B{{divider}}C''\<rparr>))))
       = filter (\<lambda>x. x = Align CT \<or> x = Raster (Image [2]))
        (sent (conn_after (printReceipt example_env no_files [OpenCallback None, CloseCallback]
           (example_args\<lparr>body := ascii ''A{{divider}} {{divider}}B''\<rparr>))))"
proof -
  let ?a = "example_args\<lparr>body := ascii ''A{{divider}} {{divider}}B''\<rparr>"
  let ?a' = "example_args\<lparr>body := ascii ''A{{divider}}B{{divider}}C''\<rparr>"
  have t: "trim (ascii '' '') = []"
    by (simp add: trim_def is_whitespace_def ascii_def code_unit_def)
  have ra: "resolveAssets example_env (bodyImageBuffer ?a) (world0 no_files)
              = (Inr example_images,
                 snd (resolveAssets example_env (bodyImageBuffer example_args) (world0 no_files)))"
    by (simp add: example_env_world)
  have f: "body ?a = ascii ''A{{divider}} {{divider}}B''"
    "body ?a' = ascii ''A{{divider}}B{{divider}}C''"
    "orderDetails ?a = JNull" "dividerImage example_images = Some (Image [2])"
    "bodyImageBuffer ?a' = bodyImageBuffer ?a \<and> orderDetails ?a' = orderDetails ?a"
    by (simp_all add: example_args_def example_images_def)
  note c3 = C3_blank_segments[OF ra, of "ascii '' ''" ?a' "Image [2]"]
  from c3 have "sent (conn_after (printReceipt example_env no_files
        [OpenCallback None, CloseCallback] ?a))
       = layout_header example_images
         @ segments_with_dividers [ascii ''A'', ascii '' '', ascii ''B''] (Some (Image [2]))
         @ layout_after_body example_images @ layout_closing example_images JNull"
    by (simp only: f split_blank_example)
  then have s: "sent (conn_after (printReceipt example_env no_files
        [OpenCallback None, CloseCallback] ?a))
       = layout_header example_images
         @ [Align LT, Text (ascii ''A''), Align CT, Raster (Image [2]),
            Align CT, Raster (Image [2]), Align LT, Text (ascii ''B'')]
         @ layout_after_body example_images @ layout_closing example_images JNull"
    by (simp add: segments_with_dividers_Some example_segment_texts)
  have l: "length (split (body ?a') DIVIDER_MARKER) = length (split (body ?a) DIVIDER_MARKER)"
    by (simp only: f split_blank_example) simp
  from c3 f(4,5) l
  have "filter (\<lambda>x. x = Align CT \<or> x = Raster (Image [2]))
        (sent (conn_after (printReceipt example_env no_files [OpenCallback None, CloseCallback]
           ?a')))
       = filter (\<lambda>x. x = Align CT \<or> x = Raster (Image [2]))
        (sent (conn_after (printReceipt example_env no_files [OpenCallback None, CloseCallback]
           ?a)))"
    by blast
  with t s show ?thesis by blast
qed

section \<open>The header logo\<close>

text \<open>
  C4. Without the header logo printReceipt fails with the header-logo error, whatever
  the body, the body image, the order details and the events are; no directive is sent
  and nothing has been converted or written.
\<close>

theorem C4_header_missing:
  "logo_png e = None \<Longrightarrow>
   result (printReceipt e files evs args) = Some (Inl HeaderLogoNotFound)
   \<and> sent (conn_after (printReceipt e files evs args)) = []
   \<and> world_after (printReceipt e files evs args) = world0 files"
  by (simp add: printReceipt_def resolveAssets_def world0_def conn0_def)

theorem C4_witness:
  "logo_png (example_env\<lparr>logo_png := None\<rparr>) = None
   \<and> result (printReceipt (example_env\<lparr>logo_png := None\<rparr>) no_files
        [OpenCallback None, CloseCallback] example_args) = Some (Inl HeaderLogoNotFound)
   \<and> sent (conn_after (printReceipt (example_env\<lparr>logo_png := None\<rparr>) no_files
        [OpenCallback None, CloseCallback] example_args)) = []"
  using C4_header_missing[of "example_env\<lparr>logo_png := None\<rparr>" no_files
      "[OpenCallback None, CloseCallback]" example_args]
  by simp

section \<open>The widths given to the raster converter\<close>

text \<open>
  C5, as amended. The raster converter is called, in this order, on the header logo at
  the full printer width (576), on the divider image at the full printer width as well,
  and on the footer image and the body image at 80 percent of the printer width, rounded
  (461); a run that fails early makes a prefix of these calls.
\<close>

theorem C5_raster_widths:
  "prefix (sharp_calls (world_after (printReceipt e files evs args)))
          (expected_sharp_calls e (bodyImageBuffer args))
   \<and> (fst (resolveAssets e (bodyImageBuffer args) (world0 files)) = Inr imgs \<longrightarrow>
        sharp_calls (world_after (printReceipt e files evs args))
          = expected_sharp_calls e (bodyImageBuffer args))
   \<and> PRINTER_WIDTH_PX = 576 \<and> FOOTER_IMAGE_WIDTH_PX = 461"
proof (intro conjI impI)
  show "prefix (sharp_calls (world_after (printReceipt e files evs args)))
          (expected_sharp_calls e (bodyImageBuffer args))"
    using resolveAssets_calls_prefix[of e "bodyImageBuffer args" "world0 files"]
    by (simp add: printReceipt_sharp_calls sharp_calls_world0)
next
  assume "fst (resolveAssets e (bodyImageBuffer args) (world0 files)) = Inr imgs"
  from resolveAssets_calls_all[OF this]
  show "sharp_calls (world_after (printReceipt e files evs args))
          = expected_sharp_calls e (bodyImageBuffer args)"
    by (simp add: printReceipt_sharp_calls sharp_calls_world0)
next
  show "PRINTER_WIDTH_PX = 576" by (simp add: PRINTER_WIDTH_PX_def)
next
  show "FOOTER_IMAGE_WIDTH_PX = 461"
    by (simp add: FOOTER_IMAGE_WIDTH_PX_def PRINTER_WIDTH_PX_def Math_round_def)
qed

theorem C5_witness:
  "fst (resolveAssets example_env (bodyImageBuffer example_args) (world0 no_files))
     = Inr example_images
   \<and> sharp_calls (world_after (printReceipt example_env no_files
        [OpenCallback None, CloseCallback] example_args))
       = [([1], 576), ([2], 576), ([3], 461)]"
proof -
  have ra: "fst (resolveAssets example_env (bodyImageBuffer example_args) (world0 no_files))
              = Inr example_images"
    by (simp only: example_env_world fst_conv)
  have ex: "expected_sharp_calls example_env (bodyImageBuffer example_args)
              = [([1], PRINTER_WIDTH_PX), ([2], PRINTER_WIDTH_PX), ([3], FOOTER_IMAGE_WIDTH_PX)]"
    by (simp add: expected_sharp_calls_def example_env_def example_args_def)
  from C5_raster_widths[of example_env no_files "[OpenCallback None, CloseCallback]"
      example_args example_images] ra
  have "sharp_calls (world_after (printReceipt example_env no_files
        [OpenCallback None, CloseCallback] example_args))
       = expected_sharp_calls example_env (bodyImageBuffer example_args)
       \<and> PRINTER_WIDTH_PX = 576 \<and> FOOTER_IMAGE_WIDTH_PX = 461"
    by blast
  with ra show ?thesis by (simp only: ex)
qed

text \<open>
  C5 as the specification states it fails for the divider role: its conversion is made at the full
  printer width, which is not the fraction used for the footer and the body image.
\<close>

theorem C5_counterexample:
  "divider_long_png example_env = Some [2]
   \<and> sharp_calls (world_after (printReceipt example_env no_files
        [OpenCallback None, CloseCallback] example_args))
       = [([1], PRINTER_WIDTH_PX), ([2], PRINTER_WIDTH_PX), ([3], FOOTER_IMAGE_WIDTH_PX)]
   \<and> PRINTER_WIDTH_PX \<noteq> FOOTER_IMAGE_WIDTH_PX"
proof -
  have d: "divider_long_png example_env = Some [2]"
    by (simp add: example_env_def)
  have c: "sharp_calls (world_after (printReceipt example_env no_files
        [OpenCallback None, CloseCallback] example_args))
       = [([1], PRINTER_WIDTH_PX), ([2], PRINTER_WIDTH_PX), ([3], FOOTER_IMAGE_WIDTH_PX)]"
    by (simp only: printReceipt_sharp_calls example_env_world snd_conv world.simps)
  from d c widths_differ show ?thesis by blast
qed

section \<open>The connection timeout\<close>

text \<open>
  C6. When the timer fires before \<^verbatim>\<open>device.open\<close> has called back, printReceipt
  reports the timeout error, but it does not close the device, and the pending open is
  not cancelled: when the connection opens afterwards the whole receipt is still sent.
\<close>

theorem C6_timeout_leaves_connection:
  "result (printReceipt example_env no_files [TimerFired] example_args)
     = Some (Inl PrinterConnectionTimeout)
   \<and> \<not> device_close_called (conn_after (printReceipt example_env no_files [TimerFired]
          example_args))
   \<and> sent (conn_after (printReceipt example_env no_files [TimerFired] example_args)) = []
   \<and> result (printReceipt example_env no_files [TimerFired, OpenCallback None, CloseCallback]
        example_args)
     = Some (Inl PrinterConnectionTimeout)
   \<and> sent (conn_after (printReceipt example_env no_files
        [TimerFired, OpenCallback None, CloseCallback] example_args))
     = receipt_layout example_images [ascii ''Hello'', ascii ''World''] None"
proof -
  have ra: "fst (resolveAssets example_env (bodyImageBuffer example_args) (world0 no_files))
              = Inr example_images"
    by (simp add: example_env_world)
  have od: "\<not> truthy (orderDetails example_args) \<or> typeof (orderDetails example_args) = ''string''"
    by (simp add: example_args_def)
  have b: "split (body example_args) DIVIDER_MARKER = [ascii ''Hello'', ascii ''World'']"
    "details_text (orderDetails example_args) = None"
    by (simp_all add: example_args_def split_example)
  show ?thesis
    by (simp add: printReceipt_unfold ra Let_def deliver_timeout_first[OF od] b)
qed

section \<open>Temp files\<close>

lemma rasterToTemp_write_failed:
  assumes "write_failed (fst (rasterToTemp e role buf width w))"
  shows "\<exists>p bytes. write_file e p bytes \<noteq> Written"
proof (rule ccontr)
  assume "\<not> (\<exists>p bytes. write_file e p bytes \<noteq> Written)"
  then have "write_file e p bytes = Written" for p bytes
    by simp
  with assms show False
    by (simp add: rasterToTemp_def processImage_def loadEscposImage_def Let_def
        split: sum.splits load_result.splits option.splits)
qed

lemma rasterOptional_write_failed:
  "write_failed (fst (rasterOptional e role source width w)) \<Longrightarrow>
   \<exists>p bytes. write_file e p bytes \<noteq> Written"
proof (cases source)
  case None
  then show "write_failed (fst (rasterOptional e role source width w)) \<Longrightarrow> ?thesis"
    by (simp add: rasterOptional_unfold)
next
  case (Some buf)
  assume wf: "write_failed (fst (rasterOptional e role source width w))"
  have "write_failed (fst (rasterToTemp e role buf width w))"
  proof (cases "fst (rasterToTemp e role buf width w)")
    case (Inl err)
    with wf Some show ?thesis
      by (cases err) (simp_all add: rasterOptional_unfold)
  next
    case (Inr img)
    with wf Some show ?thesis
      by (simp add: rasterOptional_unfold)
  qed
  then show ?thesis by (rule rasterToTemp_write_failed)
qed

lemma write_failed_Inl_retyped:
  "write_failed (Inl err :: error + 'a) \<Longrightarrow> write_failed (Inl err :: error + 'b)"
  by (cases err) simp_all

lemma resolveAssets_write_failed:
  assumes "write_failed (fst (resolveAssets e b w))"
  shows "\<exists>p bytes. write_file e p bytes \<noteq> Written"
proof (cases "logo_png e")
  case None
  with assms show ?thesis by (simp add: resolveAssets_unfold)
next
  case (Some h)
  let ?s1 = "rasterToTemp e ''header'' h PRINTER_WIDTH_PX w"
  let ?s2 = "rasterOptional e ''divider'' (divider_long_png e) PRINTER_WIDTH_PX (snd ?s1)"
  let ?s3 = "rasterOptional e ''footer'' (footer_image_1_png e) FOOTER_IMAGE_WIDTH_PX (snd ?s2)"
  let ?s4 = "rasterOptional e ''body-img'' b FOOTER_IMAGE_WIDTH_PX (snd ?s3)"
  from assms Some
  have "write_failed (fst ?s1) \<or> write_failed (fst ?s2) \<or> write_failed (fst ?s3)
        \<or> write_failed (fst ?s4)"
    by (auto simp: resolveAssets_unfold Let_def split: sum.splits
        dest: write_failed_Inl_retyped)
  then show ?thesis
    using rasterToTemp_write_failed rasterOptional_write_failed by blast
qed

text \<open>
  C7, as amended. Whenever printReceipt returns, on whatever path, the cleanup has run
  over the temp files the run wrote and recorded: each one whose unlink does not throw
  holds no file any more, and each one whose unlink throws is left in place with a
  warning logged, the warnings being exactly the recorded temp files whose unlink
  throws. A path that is not a recorded temp file and at which no write throws keeps
  its initial content. So when no write and no unlink throws and none of the temp
  names was taken before, the temp directory is as it was. (By
  \<open>printReceipt_returns_when_timer_fires\<close> the call does return.)
\<close>

theorem C7_cleanup:
  assumes "result (printReceipt e files evs args) \<noteq> None"
  shows "(p \<notin> set (tempFiles (world_after (printReceipt e files evs args))) \<longrightarrow>
            (\<forall>bytes. write_file e p bytes = Written) \<longrightarrow>
            tmp (world_after (printReceipt e files evs args)) p = files p)
       \<and> (p \<in> set (tempFiles (world_after (printReceipt e files evs args))) \<longrightarrow>
            \<not> unlink_throws e p \<longrightarrow>
            tmp (world_after (printReceipt e files evs args)) p = None)
       \<and> (p \<in> set (tempFiles (world_after (printReceipt e files evs args))) \<longrightarrow>
            unlink_throws e p \<longrightarrow>
            tmp (world_after (printReceipt e files evs args)) p \<noteq> None
            \<and> p \<in> set (warnings (world_after (printReceipt e files evs args))))
       \<and> warnings (world_after (printReceipt e files evs args))
           = filter (unlink_throws e) (tempFiles (world_after (printReceipt e files evs args)))
       \<and> ((\<forall>q bytes. write_file e q bytes = Written)
            \<and> (\<forall>q \<in> set (tempFiles (world_after (printReceipt e files evs args))).
                  \<not> unlink_throws e q \<and> files q = None) \<longrightarrow>
            tmp (world_after (printReceipt e files evs args)) = files)"
proof -
  let ?w = "snd (resolveAssets e (bodyImageBuffer args) (world0 files))"
  let ?out = "printReceipt e files evs args"
  have tr: "tracked e files ?w"
    by (rule resolveAssets_tracked[OF tracked_world0])
  have wa: "world_after ?out = cleanup e (tempFiles ?w) ?w"
    by (rule printReceipt_returned_world[OF assms])
  have tmp_after: "tmp (world_after ?out) q
      = (if q \<in> set (tempFiles ?w) \<and> \<not> unlink_throws e q then None else tmp ?w q)" for q
    by (simp add: wa cleanup_tmp)
  have tf: "tempFiles (world_after ?out) = tempFiles ?w"
    by (rule printReceipt_tempFiles)
  have outside: "q \<notin> set (tempFiles ?w) \<Longrightarrow> \<forall>bytes. write_file e q bytes = Written \<Longrightarrow>
                 tmp ?w q = files q" for q
    using tr by (auto simp: tracked_def split: if_splits)
  have inside: "q \<in> set (tempFiles ?w) \<Longrightarrow> tmp ?w q \<noteq> None" for q
    using tr by (auto simp: tracked_def split: if_splits)
  have "warnings (world_after ?out)
          = filter (\<lambda>q. tmp ?w q \<noteq> None \<and> unlink_throws e q) (tempFiles ?w)"
    using tr by (simp add: wa cleanup_warnings tracked_def)
  also have "\<dots> = filter (unlink_throws e) (tempFiles ?w)"
    by (intro filter_cong) (auto dest: inside)
  finally have warn: "warnings (world_after ?out) = filter (unlink_throws e) (tempFiles ?w)" .
  show ?thesis
  proof (intro conjI impI)
    assume "p \<notin> set (tempFiles (world_after ?out))"
       and "\<forall>bytes. write_file e p bytes = Written"
    then show "tmp (world_after ?out) p = files p"
      by (simp add: tmp_after tf outside)
  next
    assume "p \<in> set (tempFiles (world_after ?out))" and "\<not> unlink_throws e p"
    then show "tmp (world_after ?out) p = None"
      by (simp add: tmp_after tf)
  next
    assume "p \<in> set (tempFiles (world_after ?out))" and "unlink_throws e p"
    then show "tmp (world_after ?out) p \<noteq> None"
      by (simp add: tmp_after tf inside)
  next
    assume "p \<in> set (tempFiles (world_after ?out))" and "unlink_throws e p"
    then show "p \<in> set (warnings (world_after ?out))"
      by (simp add: warn tf)
  next
    show "warnings (world_after ?out) = filter (unlink_throws e) (tempFiles (world_after ?out))"
      by (simp add: warn tf)
  next
    assume fresh: "(\<forall>q bytes. write_file e q bytes = Written)
            \<and> (\<forall>q \<in> set (tempFiles (world_after ?out)). \<not> unlink_throws e q \<and> files q = None)"
    show "tmp (world_after ?out) = files"
    proof
      fix q
      show "tmp (world_after ?out) q = files q"
        using fresh by (cases "q \<in> set (tempFiles ?w)") (auto simp: tmp_after tf outside)
    qed
  qed
qed

lemma example_temp_paths_differ:
  "ascii ''/tmp/receipt-header-42.png'' \<noteq> ascii ''/tmp/receipt-divider-43.png''"
  "ascii ''/tmp/receipt-header-42.png'' \<noteq> ascii ''/tmp/receipt-footer-44.png''"
  by (simp_all add: ascii_def code_unit_def)

theorem C7_witness:
  "result (printReceipt example_env no_files [OpenCallback None, CloseCallback] example_args)
     \<noteq> None
   \<and> tmp (world_after (printReceipt example_env no_files [OpenCallback None, CloseCallback]
        example_args)) = no_files
   \<and> warnings (world_after (printReceipt example_env no_files [OpenCallback None, CloseCallback]
        example_args)) = []
   \<and> result (printReceipt readonly_env no_files [OpenCallback None, CloseCallback] example_args)
     \<noteq> None
   \<and> tmp (world_after (printReceipt readonly_env no_files [OpenCallback None, CloseCallback]
        example_args)) (ascii ''/tmp/receipt-header-42.png'') \<noteq> None
   \<and> warnings (world_after (printReceipt readonly_env no_files
        [OpenCallback None, CloseCallback] example_args))
       = [ascii ''/tmp/receipt-header-42.png'', ascii ''/tmp/receipt-divider-43.png'',
          ascii ''/tmp/receipt-footer-44.png'']"
proof -
  let ?ok = "printReceipt example_env no_files [OpenCallback None, CloseCallback] example_args"
  let ?ro = "printReceipt readonly_env no_files [OpenCallback None, CloseCallback] example_args"
  have r: "result ?ok \<noteq> None"
    using printReceipt_normal_run(1)[OF example_env_world example_args_details] by simp
  have r': "result ?ro \<noteq> None"
    using printReceipt_normal_run(1)[OF readonly_env_world example_args_details] by simp
  have tf: "tempFiles (world_after ?ok)
            = [ascii ''/tmp/receipt-header-42.png'', ascii ''/tmp/receipt-divider-43.png'',
               ascii ''/tmp/receipt-footer-44.png'']"
    by (simp only: printReceipt_tempFiles example_env_world snd_conv world.simps)
  have tf': "tempFiles (world_after ?ro)
            = [ascii ''/tmp/receipt-header-42.png'', ascii ''/tmp/receipt-divider-43.png'',
               ascii ''/tmp/receipt-footer-44.png'']"
    by (simp only: printReceipt_tempFiles readonly_env_world snd_conv world.simps)
  have u: "\<not> unlink_throws example_env q" "no_files q = None"
    "write_file example_env q bytes = Written" "unlink_throws readonly_env q" for q bytes
    by (simp_all add: example_env_def readonly_env_def no_files_def)
  note ok = C7_cleanup[OF r, of "ascii ''/tmp/receipt-header-42.png''"]
  note ro = C7_cleanup[OF r', of "ascii ''/tmp/receipt-header-42.png''"]
  from ok u have t: "tmp (world_after ?ok) = no_files"
    by blast
  from ok have "warnings (world_after ?ok) = filter (unlink_throws example_env)
                  (tempFiles (world_after ?ok))"
    by blast
  then have wn: "warnings (world_after ?ok) = []"
    by (simp add: u)
  have "ascii ''/tmp/receipt-header-42.png'' \<in> set (tempFiles (world_after ?ro))"
    by (simp only: tf') simp
  with ro u(4) have left: "tmp (world_after ?ro) (ascii ''/tmp/receipt-header-42.png'') \<noteq> None"
    by blast
  from ro have "warnings (world_after ?ro) = filter (unlink_throws readonly_env)
                  (tempFiles (world_after ?ro))"
    by blast
  then have wn': "warnings (world_after ?ro)
       = [ascii ''/tmp/receipt-header-42.png'', ascii ''/tmp/receipt-divider-43.png'',
          ascii ''/tmp/receipt-footer-44.png'']"
    by (simp only: tf') (simp add: u)
  from r t wn r' left wn' show ?thesis by blast
qed

text \<open>
  C7 as the specification states it fails when unlink throws: the \<^verbatim>\<open>finally\<close> block
  catches the exception, logs a warning and leaves the file, so a file created by the run
  remains.
\<close>

theorem C7_counterexample:
  "result (printReceipt readonly_env no_files [OpenCallback None, CloseCallback] example_args)
     = Some (Inr ())
   \<and> no_files (ascii ''/tmp/receipt-header-42.png'') = None
   \<and> tmp (world_after (printReceipt readonly_env no_files [OpenCallback None, CloseCallback]
        example_args)) (ascii ''/tmp/receipt-header-42.png'') = Some [1]"
proof -
  have r: "result (printReceipt readonly_env no_files [OpenCallback None, CloseCallback]
             example_args) = Some (Inr ())"
    by (rule printReceipt_normal_run(1)[OF readonly_env_world example_args_details])
  then have "result (printReceipt readonly_env no_files [OpenCallback None, CloseCallback]
             example_args) \<noteq> None"
    by simp
  from printReceipt_returned_world[OF this]
  have wa: "tmp (world_after (printReceipt readonly_env no_files [OpenCallback None, CloseCallback]
        example_args)) (ascii ''/tmp/receipt-header-42.png'')
      = (if ascii ''/tmp/receipt-header-42.png''
              \<in> set [ascii ''/tmp/receipt-header-42.png'',
                      ascii ''/tmp/receipt-divider-43.png'',
                      ascii ''/tmp/receipt-footer-44.png'']
            \<and> \<not> unlink_throws readonly_env (ascii ''/tmp/receipt-header-42.png'')
         then None
         else (no_files(ascii ''/tmp/receipt-header-42.png'' \<mapsto> [1],
                     ascii ''/tmp/receipt-divider-43.png'' \<mapsto> [2],
                     ascii ''/tmp/receipt-footer-44.png'' \<mapsto> [3]))
                (ascii ''/tmp/receipt-header-42.png''))"
    by (simp only: readonly_env_world cleanup_tmp snd_conv world.simps)
  have u: "unlink_throws readonly_env (ascii ''/tmp/receipt-header-42.png'')"
    by (simp add: readonly_env_def)
  have ne: "ascii ''/tmp/receipt-header-42.png'' \<noteq> ascii ''/tmp/receipt-divider-43.png''"
    "ascii ''/tmp/receipt-header-42.png'' \<noteq> ascii ''/tmp/receipt-footer-44.png''"
    by (simp_all add: ascii_def code_unit_def)
  have "tmp (world_after (printReceipt readonly_env no_files [OpenCallback None, CloseCallback]
        example_args)) (ascii ''/tmp/receipt-header-42.png'') = Some [1]"
    unfolding wa using u ne by simp
  moreover have "no_files (ascii ''/tmp/receipt-header-42.png'') = None"
    by (simp add: no_files_def)
  ultimately show ?thesis using r by blast
qed

section \<open>The request boundary\<close>

lemma upload_single_Inr: "upload_single req = Inr r \<Longrightarrow> r = req"
  by (auto simp: upload_single_def split: option.splits sum.splits if_splits)

lemma error_middleware_status: "status (error_middleware err) = 400"
  by (cases err) (simp_all add: error_middleware_def)

lemma print_handler_too_long:
  assumes "req_body req = JString b" "length b = 4001"
  shows "map_option status (fst (print_handler e files evs req)) = Some 400
       \<and> snd (print_handler e files evs req) = None"
proof -
  from assms(2) have "b \<noteq> []" by auto
  with assms show ?thesis
    by (simp add: print_handler_def Let_def)
qed

text \<open>
  C8. A request whose body text has exactly 4001 code units is answered with status 400,
  by the upload middleware or by the handler, and printReceipt is not called.
\<close>

theorem C8_too_long_rejected:
  assumes "req_body req = JString b" "length b = 4001"
  shows "map_option status (fst (post_print e files evs req)) = Some 400
       \<and> snd (post_print e files evs req) = None"
proof (cases "upload_single req")
  case (Inl err)
  then show ?thesis
    by (simp add: post_print_def error_middleware_status)
next
  case (Inr r)
  then have "r = req" by (rule upload_single_Inr)
  with Inr print_handler_too_long[OF assms, of e files evs] show ?thesis
    by (simp add: post_print_def)
qed

theorem C8_witness:
  "map_option status (fst (post_print example_env no_files [OpenCallback None, CloseCallback]
        \<lparr>req_body = JString (replicate 4001 0x61), req_orderDetails = JUndefined,
         req_file = None\<rparr>)) = Some 400
   \<and> snd (post_print example_env no_files [OpenCallback None, CloseCallback]
        \<lparr>req_body = JString (replicate 4001 0x61), req_orderDetails = JUndefined,
         req_file = None\<rparr>) = None"
proof -
  have b: "req_body \<lparr>req_body = JString (replicate 4001 0x61), req_orderDetails = JUndefined,
         req_file = None\<rparr> = JString (replicate 4001 0x61)"
    by (simp only: request.simps)
  have l: "length (replicate 4001 (0x61 :: jschar)) = 4001"
    by (simp only: length_replicate)
  show ?thesis
    by (rule C8_too_long_rejected[OF b l])
qed

section \<open>Determinism of the directive sequence\<close>

text \<open>
  C10. Two runs with the same arguments and events, on machines whose three asset files
  have the same availability and contents and whose raster converter and image loader
  are the same functions, and in neither of which the writing of a temp file throws,
  resolve the same images, send the same directives and return the same result, whatever
  the temp directory, the clock and the behaviour of unlink.
\<close>

theorem C10_deterministic:
  assumes "logo_png e1 = logo_png e2" "divider_long_png e1 = divider_long_png e2"
    "footer_image_1_png e1 = footer_image_1_png e2"
    "sharp e1 = sharp e2" "image_load e1 = image_load e2"
  shows "\<not> write_failed (fst (resolveAssets e1 (bodyImageBuffer args) (world0 files1))) \<longrightarrow>
         \<not> write_failed (fst (resolveAssets e2 (bodyImageBuffer args) (world0 files2))) \<longrightarrow>
         fst (resolveAssets e1 (bodyImageBuffer args) (world0 files1))
           = fst (resolveAssets e2 (bodyImageBuffer args) (world0 files2))
       \<and> sent (conn_after (printReceipt e1 files1 evs args))
           = sent (conn_after (printReceipt e2 files2 evs args))
       \<and> result (printReceipt e1 files1 evs args) = result (printReceipt e2 files2 evs args)"
proof (intro impI)
  assume "\<not> write_failed (fst (resolveAssets e1 (bodyImageBuffer args) (world0 files1)))"
     and "\<not> write_failed (fst (resolveAssets e2 (bodyImageBuffer args) (world0 files2)))"
  with resolveAssets_fst_cases[of e1 "bodyImageBuffer args" "world0 files1"]
    resolveAssets_fst_cases[of e2 "bodyImageBuffer args" "world0 files2"]
  have "fst (resolveAssets e1 (bodyImageBuffer args) (world0 files1))
          = resolved_images e1 (bodyImageBuffer args)"
    "fst (resolveAssets e2 (bodyImageBuffer args) (world0 files2))
          = resolved_images e2 (bodyImageBuffer args)"
    by blast+
  with resolved_images_cong[OF assms, of "bodyImageBuffer args"]
  have eq: "fst (resolveAssets e1 (bodyImageBuffer args) (world0 files1))
          = fst (resolveAssets e2 (bodyImageBuffer args) (world0 files2))"
    by simp
  show "fst (resolveAssets e1 (bodyImageBuffer args) (world0 files1))
           = fst (resolveAssets e2 (bodyImageBuffer args) (world0 files2))
       \<and> sent (conn_after (printReceipt e1 files1 evs args))
           = sent (conn_after (printReceipt e2 files2 evs args))
       \<and> result (printReceipt e1 files1 evs args) = result (printReceipt e2 files2 evs args)"
    by (simp add: printReceipt_unfold eq Let_def split: sum.splits option.splits)
qed

theorem C10_witness:
  "sent (conn_after (printReceipt example_env no_files [OpenCallback None, CloseCallback]
           example_args))
     = sent (conn_after (printReceipt
         (example_env\<lparr>tmpdir := ascii ''/var/tmp'', date_now := (\<lambda>k. 7),
                      unlink_throws := (\<lambda>p. True)\<rparr>)
         (no_files(ascii ''/var/tmp/receipt-header-7.png'' \<mapsto> [9]))
         [OpenCallback None, CloseCallback] example_args))
   \<and> result (printReceipt example_env no_files [OpenCallback None, CloseCallback] example_args)
     = result (printReceipt
         (example_env\<lparr>tmpdir := ascii ''/var/tmp'', date_now := (\<lambda>k. 7),
                      unlink_throws := (\<lambda>p. True)\<rparr>)
         (no_files(ascii ''/var/tmp/receipt-header-7.png'' \<mapsto> [9]))
         [OpenCallback None, CloseCallback] example_args)"
proof -
  let ?e2 = "example_env\<lparr>tmpdir := ascii ''/var/tmp'', date_now := (\<lambda>k. 7),
                      unlink_throws := (\<lambda>p. True)\<rparr>"
  let ?f2 = "no_files(ascii ''/var/tmp/receipt-header-7.png'' \<mapsto> [9])"
  have h: "logo_png example_env = logo_png ?e2"
    "divider_long_png example_env = divider_long_png ?e2"
    "footer_image_1_png example_env = footer_image_1_png ?e2"
    "sharp example_env = sharp ?e2" "image_load example_env = image_load ?e2"
    by simp_all
  have wr: "write_file example_env p bytes = Written" "write_file ?e2 p bytes = Written"
    for p bytes
    by (simp_all add: example_env_def)
  have n1: "\<not> write_failed (fst (resolveAssets example_env (bodyImageBuffer example_args)
              (world0 no_files)))"
    using resolveAssets_write_failed[of example_env "bodyImageBuffer example_args"
        "world0 no_files"] wr(1)
    by blast
  have n2: "\<not> write_failed (fst (resolveAssets ?e2 (bodyImageBuffer example_args)
              (world0 ?f2)))"
    using resolveAssets_write_failed[of ?e2 "bodyImageBuffer example_args" "world0 ?f2"] wr(2)
    by blast
  from C10_deterministic[OF h, of example_args no_files ?f2
      "[OpenCallback None, CloseCallback]"] n1 n2
  show ?thesis by blast
qed

end
